theory Spec2Isabelle
  imports
    Main
    "HOL-Library.Char_ord"
    "HOL-Library.List_Lexorder"
    "HOL-Library.Product_Lexorder"
begin

section \<open>RestartCleaner: retention of the most recent restart directories\<close>

text \<open>
  A shallow embedding of \<^verbatim>\<open>restart_cleaner_standalone.cpp\<close> and
  \<^verbatim>\<open>main_standalone.cpp\<close>. Exceptions are values of a sum type (\<open>Inl\<close> is a
  throw), the file system and the two output streams are an explicit state, and the
  standard library calls the code relies on (\<^verbatim>\<open>std::stoi\<close>, \<^verbatim>\<open>std::isdigit\<close>,
  \<^verbatim>\<open>fs::exists\<close>, \<^verbatim>\<open>fs::directory_iterator\<close>, \<^verbatim>\<open>fs::remove_all\<close>,
  \<^verbatim>\<open>operator<<\<close>) are modelled as functions on that state.
\<close>

subsection \<open>Exceptions\<close>

text \<open>
  The exception classes the code throws or catches; all of them derive from
  \<^verbatim>\<open>std::exception\<close> and carry the text returned by \<^verbatim>\<open>what()\<close>.
  \<open>VectorOutOfRange\<close> is not an exception: it marks a read of a \<^verbatim>\<open>std::vector\<close>
  outside its bounds, which is undefined behaviour in the source and an explicit outcome here.
\<close>

datatype error =
    InvalidArgument string
  | RuntimeError string
  | FilesystemError string
  | VectorOutOfRange

fun what :: "error \<Rightarrow> string" where
  "what (InvalidArgument m) = m"
| "what (RuntimeError m) = m"
| "what (FilesystemError m) = m"
| "what VectorOutOfRange = []"

subsection \<open>Characters and \<^verbatim>\<open>std::stoi\<close>\<close>

text \<open>\<^verbatim>\<open>std::isdigit\<close> and \<^verbatim>\<open>isspace\<close> in the C locale, on bytes.\<close>

definition isdigit :: "char \<Rightarrow> bool" where
  "isdigit c = (CHR ''0'' \<le> c \<and> c \<le> CHR ''9'')"

definition isspace :: "char \<Rightarrow> bool" where
  "isspace c = (c = CHR '' '' \<or> (CHR 0x09 \<le> c \<and> c \<le> CHR 0x0D))"

definition digit_val :: "char \<Rightarrow> int" where
  "digit_val c = int (of_char c) - 48"

definition dec_val :: "string \<Rightarrow> int" where
  "dec_val ds = foldl (\<lambda>acc c. acc * 10 + digit_val c) 0 ds"

definition INT_MAX :: int where
  "INT_MAX = 2147483647"

definition INT_MIN :: int where
  "INT_MIN = - 2147483648"

datatype stoi_error = invalid_argument | out_of_range

text \<open>
  \<^verbatim>\<open>std::stoi(str)\<close> with base 10: leading white space is skipped, one optional sign is
  read, then the longest run of decimal digits; whatever follows is ignored. No digit at
  all throws \<^verbatim>\<open>std::invalid_argument\<close>, a value outside the range of \<^verbatim>\<open>int\<close> throws
  \<^verbatim>\<open>std::out_of_range\<close>.
\<close>

definition stoi :: "string \<Rightarrow> stoi_error + int" where
  "stoi str =
     (let s1 = dropWhile isspace str;
          neg = (s1 \<noteq> [] \<and> hd s1 = CHR ''-'');
          s2 = (if s1 \<noteq> [] \<and> (hd s1 = CHR ''-'' \<or> hd s1 = CHR ''+'') then tl s1 else s1);
          ds = takeWhile isdigit s2
      in if ds = [] then Inl invalid_argument
         else let v = (if neg then - dec_val ds else dec_val ds)
              in if v < INT_MIN \<or> INT_MAX < v then Inl out_of_range
                 else Inr v)"

subsection \<open>Output\<close>

text \<open>A line written to \<^verbatim>\<open>std::cout\<close> (\<open>Out\<close>) or to \<^verbatim>\<open>std::cerr\<close> (\<open>Err\<close>).\<close>

datatype out_line = Out string | Err string

fun show_nat :: "nat \<Rightarrow> string" where
  "show_nat n =
     (if n < 10 then [char_of (48 + n)]
      else show_nat (n div 10) @ [char_of (48 + n mod 10)])"

declare show_nat.simps [simp del]

definition show_int :: "int \<Rightarrow> string" where
  "show_int i = (if i < 0 then CHR ''-'' # show_nat (nat (- i)) else show_nat (nat i))"

subsection \<open>Paths and the file system\<close>

text \<open>
  Every \<^verbatim>\<open>fs::path\<close> the code handles is \<^verbatim>\<open>entry.path()\<close> of a directory entry: the
  iterated directory joined with the entry's name. A path is kept as these two parts;
  \<^verbatim>\<open>filename()\<close> is the second. Streaming a path writes it quoted
  (\<^verbatim>\<open>std::quoted\<close>: double quotes around, a backslash before each quote or backslash).
\<close>

datatype path = Path (parent: string) (filename: string)

definition path_string :: "path \<Rightarrow> string" where
  "path_string p =
     (if parent p = [] \<or> last (parent p) = CHR ''/'' then parent p @ filename p
      else parent p @ ''/'' @ filename p)"

definition quoted :: "string \<Rightarrow> string" where
  "quoted s =
     CHR 0x22 # concat (map (\<lambda>c. if c = CHR 0x22 \<or> c = CHR 0x5C then [CHR 0x5C, c] else [c]) s)
       @ [CHR 0x22]"

definition show_path :: "path \<Rightarrow> string" where
  "show_path p = quoted (path_string p)"

text \<open>
  The state of the base directory. An entry has its name, whether
  \<^verbatim>\<open>is_directory()\<close> holds, and the message of the exception \<^verbatim>\<open>fs::remove_all\<close>
  throws on it, if it does. The directory itself is missing, or exists but cannot be
  scanned, or lists its entries in the order the iterator yields them. An existing
  directory cannot be scanned for one of two reasons: the status query behind
  \<^verbatim>\<open>fs::exists\<close> fails (no search permission on a parent directory), so that
  \<^verbatim>\<open>fs::exists\<close> itself throws; or the query succeeds and the iteration fails (no
  read permission, not a directory). Either way the message is the one of the
  \<^verbatim>\<open>filesystem_error\<close>.
\<close>

datatype failure = StatusFails string | IterationFails string

fun failure_what :: "failure \<Rightarrow> string" where
  "failure_what (StatusFails m) = m"
| "failure_what (IterationFails m) = m"

record dirent =
  d_name :: string
  d_is_directory :: bool
  d_remove_error :: "string option"

datatype base_dir = Missing | Unreadable failure | Listing "dirent list"

record world =
  w_fs :: base_dir
  w_out :: "out_line list"

definition put :: "out_line \<Rightarrow> world \<Rightarrow> world" where
  "put l w = w\<lparr>w_out := w_out w @ [l]\<rparr>"

definition puts :: "out_line list \<Rightarrow> world \<Rightarrow> world" where
  "puts ls w = w\<lparr>w_out := w_out w @ ls\<rparr>"

text \<open>
  \<^verbatim>\<open>fs::exists(p)\<close>, the overload without an error code: it throws when the status
  query fails.
\<close>

definition fs_exists :: "base_dir \<Rightarrow> error + bool" where
  "fs_exists b =
     (case b of
        Missing \<Rightarrow> Inr False
      | Unreadable (StatusFails m) \<Rightarrow> Inl (FilesystemError m)
      | Unreadable (IterationFails m) \<Rightarrow> Inr True
      | Listing es \<Rightarrow> Inr True)"

definition directory_iterator :: "base_dir \<Rightarrow> error + dirent list" where
  "directory_iterator b =
     (case b of
        Listing es \<Rightarrow> Inr es
      | Unreadable f \<Rightarrow> Inl (FilesystemError (failure_what f))
      | Missing \<Rightarrow> Inl (FilesystemError ''No such file or directory''))"

text \<open>
  \<^verbatim>\<open>fs::remove_all(p)\<close> on a child of the base directory: a path that does not exist
  is no error and removes nothing; otherwise the entry is removed, or the call throws and
  the entry stays.
\<close>

definition remove_all :: "path \<Rightarrow> base_dir \<Rightarrow> error + base_dir" where
  "remove_all p b =
     (case b of
        Missing \<Rightarrow> Inr Missing
      | Unreadable f \<Rightarrow> Inl (FilesystemError (failure_what f))
      | Listing es \<Rightarrow>
          (case find (\<lambda>e. d_name e = filename p) es of
             None \<Rightarrow> Inr (Listing es)
           | Some e \<Rightarrow>
               (case d_remove_error e of
                  Some m \<Rightarrow> Inl (FilesystemError m)
                | None \<Rightarrow> Inr (Listing (filter (\<lambda>e. d_name e \<noteq> filename p) es)))))"

subsection \<open>The class \<^verbatim>\<open>RestartCleaner\<close>\<close>

datatype CleanupStrategy = KEEP_RECENT_N

record RestartCleaner =
  d_restart_base_path :: string
  d_strategy :: CleanupStrategy
  d_keep_restart_count :: int
  d_dry_run :: bool

definition parseStrategy :: "string \<Rightarrow> error + CleanupStrategy" where
  "parseStrategy strategy_str =
     (if strategy_str = ''KEEP_RECENT_N'' then Inr KEEP_RECENT_N
      else Inl (InvalidArgument (''RestartCleaner: Unknown strategy: '' @ strategy_str)))"

text \<open>
  The constructor. The member initialisers run first, so \<open>parseStrategy\<close> throws before
  the body checks the count and the path. The call of \<^verbatim>\<open>fs::exists\<close> is in no
  \<^verbatim>\<open>try\<close> block: what it throws leaves the constructor.
\<close>

definition RestartCleaner_new ::
    "string \<Rightarrow> int \<Rightarrow> string \<Rightarrow> bool \<Rightarrow> base_dir \<Rightarrow> error + RestartCleaner" where
  "RestartCleaner_new restart_base_path keep_restart_count strategy dry_run b =
     (case parseStrategy strategy of
        Inl e \<Rightarrow> Inl e
      | Inr st \<Rightarrow>
          if keep_restart_count \<le> 0
          then Inl (InvalidArgument ''RestartCleaner: keep_restart_count must be positive'')
          else (case fs_exists b of
                  Inl e \<Rightarrow> Inl e
                | Inr exists \<Rightarrow>
                    if \<not> exists
                    then Inl (InvalidArgument
                           (''RestartCleaner: restart_base_path does not exist: ''
                              @ restart_base_path))
                    else Inr \<lparr>d_restart_base_path = restart_base_path, d_strategy = st,
                              d_keep_restart_count = keep_restart_count,
                              d_dry_run = dry_run\<rparr>))"

definition parseIterationNum :: "string \<Rightarrow> int" where
  "parseIterationNum dirname =
     (if length dirname \<noteq> 14 \<or> take 8 dirname \<noteq> ''restore.'' then - 1
      else let number_part = drop 8 dirname
           in if length number_part \<noteq> 6 then - 1
              else if \<not> list_all isdigit number_part then - 1
              else (case stoi number_part of Inr v \<Rightarrow> v | Inl e \<Rightarrow> - 1))"

definition getAllRestartDirs :: "string \<Rightarrow> base_dir \<Rightarrow> error + path list" where
  "getAllRestartDirs restart_dir b =
     (case (case fs_exists b of
              Inl e \<Rightarrow> Inl e
            | Inr exists \<Rightarrow>
                if exists
                then (case directory_iterator b of
                        Inl e \<Rightarrow> Inl e
                      | Inr es \<Rightarrow>
                          Inr (map (\<lambda>entry. Path restart_dir (d_name entry))
                                (filter (\<lambda>entry. d_is_directory entry
                                           \<and> 0 \<le> parseIterationNum (d_name entry)) es)))
                else Inr [])
      of
        Inl e \<Rightarrow> Inl (RuntimeError (''RestartCleaner: Error scanning directory: '' @ what e))
      | Inr restart_dirs \<Rightarrow> Inr restart_dirs)"

definition getAvailableIterations :: "RestartCleaner \<Rightarrow> world \<Rightarrow> (error + int list) \<times> world" where
  "getAvailableIterations c w =
     (case getAllRestartDirs (d_restart_base_path c) (w_fs w) of
        Inr all_dirs \<Rightarrow>
          (Inr (sort (filter (\<lambda>iter. 0 \<le> iter)
                  (map (\<lambda>dir. parseIterationNum (filename dir)) all_dirs))), w)
      | Inl e \<Rightarrow>
          (Inr [], put (Err (''RestartCleaner: Error scanning directories: '' @ what e)) w))"

text \<open>Conversions of machine integers: to \<^verbatim>\<open>int\<close> (32 bits, signed) and to \<^verbatim>\<open>size_t\<close>.\<close>

definition to_int32 :: "int \<Rightarrow> int" where
  "to_int32 x = (x + 2147483648) mod 4294967296 - 2147483648"

definition to_size_t :: "int \<Rightarrow> int" where
  "to_size_t x = x mod 18446744073709551616"

text \<open>
  The vector \<^verbatim>\<open>dirs_with_iter\<close> of \<open>keepRecentN\<close> after \<^verbatim>\<open>std::sort\<close>: pairs compare
  by the iteration number, then by the path; all paths have the same parent, so the
  paths compare by their file names.
\<close>

definition dirs_with_iter :: "path list \<Rightarrow> (int \<times> path) list" where
  "dirs_with_iter all_dirs =
     sort_key (\<lambda>(iter, dir). (iter, filename dir))
       (filter (\<lambda>(iter, dir). 0 \<le> iter)
          (map (\<lambda>dir. (parseIterationNum (filename dir), dir)) all_dirs))"

text \<open>The body of the deletion loop of \<open>keepRecentN\<close>, for one path.\<close>

definition delete_one :: "RestartCleaner \<Rightarrow> path \<Rightarrow> world \<Rightarrow> world" where
  "delete_one c dir_path w =
     (if d_dry_run c
      then put (Out (''  DRY RUN: Would delete '' @ show_path dir_path)) w
      else (case remove_all dir_path (w_fs w) of
              Inr b \<Rightarrow> put (Out (''  Deleted '' @ show_path dir_path)) (w\<lparr>w_fs := b\<rparr>)
            | Inl e \<Rightarrow>
                put (Err (''  Error deleting '' @ show_path dir_path @ '': '' @ what e)) w))"

function delete_loop ::
    "RestartCleaner \<Rightarrow> (int \<times> path) list \<Rightarrow> int \<Rightarrow> int \<Rightarrow> world \<Rightarrow> (error + unit) \<times> world" where
  "delete_loop c dirs i num_to_delete w =
     (if i < num_to_delete
      then (if i < 0 \<or> int (length dirs) \<le> i then (Inl VectorOutOfRange, w)
            else delete_loop c dirs (i + 1) num_to_delete
                   (delete_one c (snd (dirs ! nat i)) w))
      else (Inr (), w))"
  by pat_completeness auto
termination
  by (relation "measure (\<lambda>(c, dirs, i, num_to_delete, w). nat (num_to_delete - i))") auto

declare delete_loop.simps [simp del]

definition keepRecentN :: "RestartCleaner \<Rightarrow> world \<Rightarrow> (error + unit) \<times> world" where
  "keepRecentN c w =
     (case getAllRestartDirs (d_restart_base_path c) (w_fs w) of
        Inl e \<Rightarrow> (Inl e, w)
      | Inr all_dirs \<Rightarrow>
          if all_dirs = [] then (Inr (), put (Out ''No restart directories found'') w)
          else
            let w1 = put (Out (''Found '' @ show_nat (length all_dirs)
                                 @ '' restart directories'')) w;
                dirs = dirs_with_iter all_dirs
            in if to_int32 (int (length dirs)) \<le> d_keep_restart_count c
               then (Inr (), put (Out (''No cleanup needed, keeping all ''
                                         @ show_nat (length dirs) @ '' directories'')) w1)
               else
                 let num_to_delete =
                       to_int32 (to_size_t (int (length dirs)
                                   - to_size_t (d_keep_restart_count c)));
                     w2 = put (Out (''Deleting '' @ show_int num_to_delete
                                      @ '' old restart directories (keeping ''
                                      @ show_int (d_keep_restart_count c)
                                      @ '' most recent)'')) w1
                 in delete_loop c dirs 0 num_to_delete w2)"

definition executeStrategy :: "RestartCleaner \<Rightarrow> world \<Rightarrow> (error + unit) \<times> world" where
  "executeStrategy c w = keepRecentN c w"

definition cleanup :: "RestartCleaner \<Rightarrow> world \<Rightarrow> (error + unit) \<times> world" where
  "cleanup c w =
     executeStrategy c
       (put (Out (''Keeping '' @ show_int (d_keep_restart_count c)
                    @ '' most recent restart directories''))
          (put (Out (''RestartCleaner: Starting cleanup of '' @ d_restart_base_path c)) w))"

subsection \<open>The command line\<close>

definition show_usage :: "string \<Rightarrow> out_line list" where
  "show_usage program_name =
     [Out ''IBAMR Restart Cleanup Tool'',
      Out (''Usage: '' @ program_name @ '' --recent N <restart_dir> [--dry-run]''),
      Out [],
      Out ''Options:'',
      Out ''  --recent N     Keep the N most recent restore directories'',
      Out [],
      Out ''Flags:'',
      Out ''  --dry-run      Preview mode - show what would be deleted without actual deletion'',
      Out [],
      Out ''Examples:'',
      Out (''  '' @ program_name @ '' --recent 5 ./restart_IB2d''),
      Out (''  '' @ program_name @ '' --recent 3 ./restart_IB2d --dry-run'')]"

text \<open>
  \<open>main\<close>: \<open>program_name\<close> is \<^verbatim>\<open>argv[0]\<close>, \<open>args\<close> are \<^verbatim>\<open>argv[1]\<close> onwards, the
  result is the exit code.
\<close>

definition main :: "string \<Rightarrow> string list \<Rightarrow> world \<Rightarrow> int \<times> world" where
  "main program_name args w =
     (let argc = 1 + length args
      in if argc < 4 \<or> 5 < argc then (1, puts (show_usage program_name) w)
         else
           let option = args ! 0; restart_dir = args ! 2
           in if option \<noteq> ''--recent''
              then (1, puts (Err ''Error: Currently only --recent option is supported.''
                              # show_usage program_name) w)
              else if argc = 5 \<and> args ! 3 \<noteq> ''--dry-run''
              then (1, puts (Err (''Error: Unknown flag '' @ [CHR 0x27] @ args ! 3
                                    @ [CHR 0x27] @ ''.'')
                              # show_usage program_name) w)
              else
                let dry_run = (argc = 5)
                in (case stoi (args ! 1) of
                      Inl invalid_argument \<Rightarrow>
                        (1, put (Err (''Error: '' @ [CHR 0x27] @ args ! 1 @ [CHR 0x27]
                                        @ '' is not a valid number.'')) w)
                    | Inl out_of_range \<Rightarrow>
                        (1, put (Err (''Error: Number '' @ [CHR 0x27] @ args ! 1 @ [CHR 0x27]
                                        @ '' is out of range.'')) w)
                    | Inr keep_count \<Rightarrow>
                        if keep_count \<le> 0
                        then (1, put (Err (''Error: Keep count must be positive, got ''
                                             @ show_int keep_count)) w)
                        else
                          (case RestartCleaner_new restart_dir keep_count ''KEEP_RECENT_N''
                                  dry_run (w_fs w) of
                             Inl e \<Rightarrow> (1, put (Err (''Error: '' @ what e)) w)
                           | Inr cleaner \<Rightarrow>
                               (case cleanup cleaner w of
                                  (Inl e, w1) \<Rightarrow> (1, put (Err (''Error: '' @ what e)) w1)
                                | (Inr u, w1) \<Rightarrow>
                                    (case getAvailableIterations cleaner w1 of
                                       (Inl e, w2) \<Rightarrow>
                                         (1, put (Err (''Error: '' @ what e)) w2)
                                     | (Inr remaining, w2) \<Rightarrow>
                                         (0, put (Out (CHR 0x0A # ''Final result: ''
                                                         @ show_nat (length remaining)
                                                         @ '' directories remaining.''))
                                               w2))))))"

subsection \<open>The naming convention, in the words of the specification\<close>

text \<open>
  A valid iteration identifier: the literal prefix \<^verbatim>\<open>restore.\<close> followed by exactly six
  decimal digits and nothing else.
\<close>

definition valid_name :: "string \<Rightarrow> bool" where
  "valid_name s \<longleftrightarrow> (\<exists>ds. s = ''restore.'' @ ds \<and> length ds = 6 \<and> list_all isdigit ds)"

text \<open>
  The entries of the base directory that count: the immediate children that are
  directories and carry a valid name. There are none when the base directory is missing
  or cannot be read.
\<close>

definition restart_entries :: "base_dir \<Rightarrow> dirent list" where
  "restart_entries b =
     (case b of
        Listing es \<Rightarrow> filter (\<lambda>e. d_is_directory e \<and> valid_name (d_name e)) es
      | _ \<Rightarrow> [])"

definition iteration :: "dirent \<Rightarrow> int" where
  "iteration e = parseIterationNum (d_name e)"

text \<open>
  What the deletion loop does to a listing, stated apart from the loop: the failure
  \<^verbatim>\<open>fs::remove_all\<close> meets on the child of a given name, if any; the line reported for
  a path; and the listing that is left once the children with the given names have been
  attempted.
\<close>

definition remove_error_at :: "dirent list \<Rightarrow> string \<Rightarrow> string option" where
  "remove_error_at es n =
     (case find (\<lambda>e. d_name e = n) es of Some e \<Rightarrow> d_remove_error e | None \<Rightarrow> None)"

definition deletion_report :: "dirent list \<Rightarrow> path \<Rightarrow> out_line" where
  "deletion_report es p =
     (case remove_error_at es (filename p) of
        None \<Rightarrow> Out (''  Deleted '' @ show_path p)
      | Some m \<Rightarrow> Err (''  Error deleting '' @ show_path p @ '': '' @ m))"

definition after_deletion :: "dirent list \<Rightarrow> string list \<Rightarrow> dirent list" where
  "after_deletion es names =
     filter (\<lambda>e. \<not> (d_name e \<in> set names \<and> remove_error_at es (d_name e) = None)) es"

text \<open>The names of the entries of one directory are pairwise different.\<close>

definition well_formed :: "base_dir \<Rightarrow> bool" where
  "well_formed b = (case b of Listing es \<Rightarrow> distinct (map d_name es) | _ \<Rightarrow> True)"

subsection \<open>The directory tree of \<^verbatim>\<open>test_restart_cleaner.cpp\<close>\<close>

text \<open>
  \<^verbatim>\<open>TestEnvironment::create_test_data\<close> creates nine valid and seven invalid
  directories; \<open>locked\<close> is a directory whose removal fails.
\<close>

definition directory :: "string \<Rightarrow> dirent" where
  "directory n = \<lparr>d_name = n, d_is_directory = True, d_remove_error = None\<rparr>"

definition locked :: "string \<Rightarrow> dirent" where
  "locked n = \<lparr>d_name = n, d_is_directory = True, d_remove_error = Some ''Permission denied''\<rparr>"

definition valid_dirs :: "string list" where
  "valid_dirs =
     [''restore.000100'', ''restore.000200'', ''restore.000300'',
      ''restore.001000'', ''restore.002500'', ''restore.003000'',
      ''restore.999999'', ''restore.000001'', ''restore.005000'']"

definition invalid_dirs :: "string list" where
  "invalid_dirs =
     [''restore.12345'', ''restore.1234567'', ''restore.abc123'', ''restore_invalid'',
      ''other_directory'', ''restore.'', ''restore.000100_backup'']"

definition test_restart_dir :: base_dir where
  "test_restart_dir = Listing (map directory (valid_dirs @ invalid_dirs))"

text \<open>A smaller tree in which the removal of one of the old directories fails.\<close>

definition locked_restart_dir :: base_dir where
  "locked_restart_dir =
     Listing [directory ''restore.000300'', locked ''restore.000100'',
              directory ''restore.000200'', directory ''other_directory'',
              directory ''restore.000001'']"

definition test_cleaner :: "int \<Rightarrow> bool \<Rightarrow> RestartCleaner" where
  "test_cleaner keep dry_run =
     \<lparr>d_restart_base_path = ''test_restart_cleanup/restart_IB2d'', d_strategy = KEEP_RECENT_N,
      d_keep_restart_count = keep, d_dry_run = dry_run\<rparr>"

section \<open>Parsing of directory names\<close>

subsection \<open>Digits and their value\<close>

lemma isdigit_of_char:
  "isdigit c \<longleftrightarrow> 48 \<le> (of_char c :: nat) \<and> (of_char c :: nat) \<le> 57"
  by (simp add: isdigit_def less_eq_char_def)

lemma digit_val_range: "isdigit c \<Longrightarrow> 0 \<le> digit_val c \<and> digit_val c \<le> 9"
  by (auto simp: isdigit_of_char digit_val_def)

lemma digit_val_inj: "digit_val c = digit_val d \<Longrightarrow> c = d"
proof -
  assume "digit_val c = digit_val d"
  then have "(of_char c :: nat) = of_char d" by (simp add: digit_val_def)
  then show "c = d" by simp
qed

lemma dec_val_snoc: "dec_val (ds @ [c]) = dec_val ds * 10 + digit_val c"
  by (simp add: dec_val_def)

lemma dec_val_bounds:
  "list_all isdigit ds \<Longrightarrow> 0 \<le> dec_val ds \<and> dec_val ds < 10 ^ length ds"
proof (induction ds rule: rev_induct)
  case Nil
  then show ?case by (simp add: dec_val_def)
next
  case (snoc c ds)
  then have ih: "0 \<le> dec_val ds" "dec_val ds < 10 ^ length ds" and c: "isdigit c"
    by simp_all
  from c have "0 \<le> digit_val c" "digit_val c \<le> 9" using digit_val_range by blast+
  with ih show ?case by (simp add: dec_val_snoc)
qed

lemma dec_val_inj:
  "list_all isdigit xs \<Longrightarrow> list_all isdigit ys \<Longrightarrow> length xs = length ys
     \<Longrightarrow> dec_val xs = dec_val ys \<Longrightarrow> xs = ys"
proof (induction xs arbitrary: ys rule: rev_induct)
  case Nil
  then show ?case by simp
next
  case (snoc x xs)
  from snoc.prems(3) obtain y ys' where ys: "ys = ys' @ [y]"
    by (cases ys rule: rev_cases) auto
  from snoc.prems(1) have dx: "isdigit x" and xs: "list_all isdigit xs" by simp_all
  from snoc.prems(2) ys have dy: "isdigit y" and ys': "list_all isdigit ys'" by simp_all
  from snoc.prems(4) ys
  have eq: "dec_val xs * 10 + digit_val x = dec_val ys' * 10 + digit_val y"
    by (simp add: dec_val_snoc)
  from digit_val_range[OF dx] digit_val_range[OF dy] eq
  have "digit_val x = digit_val y" and "dec_val xs = dec_val ys'" by presburger+
  moreover from snoc.prems(3) ys have "length xs = length ys'" by simp
  ultimately show ?case using snoc.IH[OF xs ys'] digit_val_inj ys by blast
qed

lemma dec_val_six:
  "dec_val [a, b, c, d, e, f] =
     digit_val a * 100000 + digit_val b * 10000 + digit_val c * 1000 +
     digit_val d * 100 + digit_val e * 10 + digit_val f"
  by (simp add: dec_val_def)

subsection \<open>The conversion on digit strings\<close>

lemma isdigit_not_space: "isdigit c \<Longrightarrow> \<not> isspace c"
  by (auto simp: isdigit_of_char isspace_def less_eq_char_def)

lemma isdigit_not_sign: "isdigit c \<Longrightarrow> c \<noteq> CHR ''-'' \<and> c \<noteq> CHR ''+''"
  by (auto simp: isdigit_of_char)

lemma stoi_digits:
  assumes "list_all isdigit ds" and "ds \<noteq> []"
  shows "stoi ds = (if INT_MAX < dec_val ds then Inl out_of_range else Inr (dec_val ds))"
proof -
  obtain c cs where ds: "ds = c # cs" using assms(2) by (cases ds) auto
  with assms(1) have c: "isdigit c" by simp
  have 1: "dropWhile isspace ds = ds" using c isdigit_not_space ds by simp
  have 2: "hd ds \<noteq> CHR ''-''" "hd ds \<noteq> CHR ''+''" using c isdigit_not_sign ds by auto
  have 3: "takeWhile isdigit ds = ds" using assms(1) by (simp add: list_all_iff)
  have 4: "\<not> dec_val ds < INT_MIN" using dec_val_bounds[OF assms(1)] by (simp add: INT_MIN_def)
  show ?thesis using 2 4 assms(2) by (simp add: stoi_def Let_def 1 3)
qed

lemma stoi_six_digits:
  assumes "list_all isdigit ds" and "length ds = 6"
  shows "stoi ds = Inr (dec_val ds)" and "0 \<le> dec_val ds" and "dec_val ds \<le> 999999"
proof -
  from dec_val_bounds[OF assms(1)] assms(2)
  show b: "0 \<le> dec_val ds" and u: "dec_val ds \<le> 999999" by simp_all
  from assms(2) have "ds \<noteq> []" by auto
  with stoi_digits[OF assms(1)] u show "stoi ds = Inr (dec_val ds)" by (simp add: INT_MAX_def)
qed

subsection \<open>\<open>parseIterationNum\<close>\<close>

lemma valid_name_code [code]:
  "valid_name s \<longleftrightarrow> length s = 14 \<and> take 8 s = ''restore.'' \<and> list_all isdigit (drop 8 s)"
proof
  assume "valid_name s"
  then show "length s = 14 \<and> take 8 s = ''restore.'' \<and> list_all isdigit (drop 8 s)"
    by (auto simp: valid_name_def)
next
  assume a: "length s = 14 \<and> take 8 s = ''restore.'' \<and> list_all isdigit (drop 8 s)"
  then have "s = ''restore.'' @ drop 8 s" by (metis append_take_drop_id)
  moreover from a have "length (drop 8 s) = 6" by simp
  ultimately show "valid_name s" using a unfolding valid_name_def by blast
qed

lemma parseIterationNum_valid:
  assumes "valid_name s"
  shows "parseIterationNum s = dec_val (drop 8 s)"
proof -
  from assms have a: "length s = 14" "take 8 s = ''restore.''" "list_all isdigit (drop 8 s)"
    by (simp_all add: valid_name_code)
  then have l: "length (drop 8 s) = 6" by simp
  from stoi_six_digits(1)[OF a(3) l] a l show ?thesis
    by (simp add: parseIterationNum_def Let_def)
qed

lemma parseIterationNum_invalid: "\<not> valid_name s \<Longrightarrow> parseIterationNum s = - 1"
  by (auto simp: parseIterationNum_def valid_name_code Let_def)

lemma parseIterationNum_nonneg_iff: "0 \<le> parseIterationNum s \<longleftrightarrow> valid_name s"
proof
  assume "0 \<le> parseIterationNum s"
  then show "valid_name s" using parseIterationNum_invalid by fastforce
next
  assume v: "valid_name s"
  then have "list_all isdigit (drop 8 s)" "length (drop 8 s) = 6"
    by (simp_all add: valid_name_code)
  from stoi_six_digits(2)[OF this] parseIterationNum_valid[OF v]
  show "0 \<le> parseIterationNum s" by simp
qed

lemma parseIterationNum_upper: "parseIterationNum s \<le> 999999"
proof (cases "valid_name s")
  case True
  then have "list_all isdigit (drop 8 s)" "length (drop 8 s) = 6"
    by (simp_all add: valid_name_code)
  from stoi_six_digits(3)[OF this] parseIterationNum_valid[OF True] show ?thesis by simp
next
  case False
  then show ?thesis by (simp add: parseIterationNum_invalid)
qed

lemma parseIterationNum_inj:
  assumes "valid_name s" and "valid_name t" and "parseIterationNum s = parseIterationNum t"
  shows "s = t"
proof -
  from assms(1) have s: "take 8 s = ''restore.''" "list_all isdigit (drop 8 s)" "length s = 14"
    by (simp_all add: valid_name_code)
  from assms(2) have t: "take 8 t = ''restore.''" "list_all isdigit (drop 8 t)" "length t = 14"
    by (simp_all add: valid_name_code)
  from assms have "dec_val (drop 8 s) = dec_val (drop 8 t)"
    by (simp add: parseIterationNum_valid)
  with s t have "drop 8 s = drop 8 t" by (intro dec_val_inj) simp_all
  with s(1) t(1) show "s = t" by (metis append_take_drop_id)
qed

text \<open>
  C2. \<open>parseIterationNum\<close> returns a non-negative number exactly on the names that are
  \<^verbatim>\<open>restore.\<close> followed by six decimal digits and nothing else; on every other name,
  and whenever the conversion of the digits fails, it returns \<open>-1\<close>. The six digits are
  read as a plain decimal number, leading zeros included: \<^verbatim>\<open>restore.000000\<close> is 0 and
  \<^verbatim>\<open>restore.000001\<close> is 1.
\<close>

theorem parseIterationNum_format:
  "(0 \<le> parseIterationNum s \<longleftrightarrow> valid_name s)
   \<and> (valid_name s \<longrightarrow> length s = 14)
   \<and> (\<not> valid_name s \<longrightarrow> parseIterationNum s = - 1)
   \<and> ((\<exists>err. stoi (drop 8 s) = Inl err) \<longrightarrow> parseIterationNum s = - 1)
   \<and> (isdigit a \<and> isdigit b \<and> isdigit c \<and> isdigit d \<and> isdigit e \<and> isdigit f \<longrightarrow>
        parseIterationNum (''restore.'' @ [a, b, c, d, e, f]) =
          digit_val a * 100000 + digit_val b * 10000 + digit_val c * 1000 +
          digit_val d * 100 + digit_val e * 10 + digit_val f)
   \<and> parseIterationNum ''restore.000000'' = 0
   \<and> parseIterationNum ''restore.000001'' = 1"
proof (intro conjI impI)
  show "0 \<le> parseIterationNum s \<longleftrightarrow> valid_name s" by (rule parseIterationNum_nonneg_iff)
next
  assume "valid_name s"
  then show "length s = 14" by (simp add: valid_name_code)
next
  assume "\<not> valid_name s"
  then show "parseIterationNum s = - 1" by (rule parseIterationNum_invalid)
next
  assume "\<exists>err. stoi (drop 8 s) = Inl err"
  then show "parseIterationNum s = - 1"
    by (auto simp: parseIterationNum_def Let_def)
next
  assume dig: "isdigit a \<and> isdigit b \<and> isdigit c \<and> isdigit d \<and> isdigit e \<and> isdigit f"
  then have "valid_name (''restore.'' @ [a, b, c, d, e, f])"
    by (simp add: valid_name_def)
  from parseIterationNum_valid[OF this]
  show "parseIterationNum (''restore.'' @ [a, b, c, d, e, f]) =
          digit_val a * 100000 + digit_val b * 10000 + digit_val c * 1000 +
          digit_val d * 100 + digit_val e * 10 + digit_val f"
    by (simp add: dec_val_six)
next
  show "parseIterationNum ''restore.000000'' = 0" by code_simp
next
  show "parseIterationNum ''restore.000001'' = 1" by code_simp
qed

theorem parseIterationNum_format_witness:
  "0 \<le> parseIterationNum ''restore.002500''
   \<and> parseIterationNum ''restore.002500'' = 2500
   \<and> parseIterationNum ''restore.12345'' = - 1
   \<and> parseIterationNum ''restore.abc123'' = - 1
   \<and> parseIterationNum ''restore.000100_backup'' = - 1"
proof -
  have v: "valid_name ''restore.002500''" by (simp add: valid_name_code isdigit_of_char)
  have d: "isdigit CHR ''0'' \<and> isdigit CHR ''0'' \<and> isdigit CHR ''2'' \<and> isdigit CHR ''5''
             \<and> isdigit CHR ''0'' \<and> isdigit CHR ''0''"
    by (simp add: isdigit_of_char)
  have n1: "\<not> valid_name ''restore.12345''" by (simp add: valid_name_code)
  have "stoi (drop 8 ''restore.abc123'') = Inl invalid_argument" by code_simp
  then have n2: "\<exists>err. stoi (drop 8 ''restore.abc123'') = Inl err" by blast
  have n3: "\<not> valid_name ''restore.000100_backup''" by (simp add: valid_name_code)
  from v d
    parseIterationNum_format[of "''restore.002500''" "CHR ''0''" "CHR ''0''" "CHR ''2''"
      "CHR ''5''" "CHR ''0''" "CHR ''0''"]
  have "0 \<le> parseIterationNum ''restore.002500''"
    and "parseIterationNum ''restore.002500'' = 2500"
    by (simp_all add: digit_val_def)
  moreover from n1 parseIterationNum_format[of "''restore.12345''"]
  have "parseIterationNum ''restore.12345'' = - 1" by blast
  moreover from n2 parseIterationNum_format[of "''restore.abc123''"]
  have "parseIterationNum ''restore.abc123'' = - 1" by blast
  moreover from n3 parseIterationNum_format[of "''restore.000100_backup''"]
  have "parseIterationNum ''restore.000100_backup'' = - 1" by blast
  ultimately show ?thesis by simp
qed

text \<open>
  C10. \<open>parseIterationNum\<close> returns \<open>-1\<close> or a number from 0 to 999999. Whenever the
  checks before the conversion pass, \<^verbatim>\<open>std::stoi\<close> returns a value, between 0 and
  999999 and so within the range of \<^verbatim>\<open>int\<close>: the handler around the conversion is
  never entered.
\<close>

theorem parseIterationNum_range:
  "(parseIterationNum s = - 1 \<or> (0 \<le> parseIterationNum s \<and> parseIterationNum s \<le> 999999))
   \<and> (length s = 14 \<and> take 8 s = ''restore.'' \<and> length (drop 8 s) = 6
        \<and> list_all isdigit (drop 8 s) \<longrightarrow>
      (\<exists>v. stoi (drop 8 s) = Inr v \<and> parseIterationNum s = v
            \<and> 0 \<le> v \<and> v \<le> 999999 \<and> INT_MIN \<le> v \<and> v \<le> INT_MAX))"
proof (intro conjI impI)
  show "parseIterationNum s = - 1 \<or> (0 \<le> parseIterationNum s \<and> parseIterationNum s \<le> 999999)"
    using parseIterationNum_invalid[of s] parseIterationNum_nonneg_iff[of s]
      parseIterationNum_upper[of s] by blast
next
  assume a: "length s = 14 \<and> take 8 s = ''restore.'' \<and> length (drop 8 s) = 6
               \<and> list_all isdigit (drop 8 s)"
  then have v: "valid_name s" by (simp add: valid_name_code)
  from a have d: "list_all isdigit (drop 8 s)" and l: "length (drop 8 s) = 6" by simp_all
  from stoi_six_digits[OF d l] parseIterationNum_valid[OF v]
  show "\<exists>v. stoi (drop 8 s) = Inr v \<and> parseIterationNum s = v
            \<and> 0 \<le> v \<and> v \<le> 999999 \<and> INT_MIN \<le> v \<and> v \<le> INT_MAX"
    by (simp add: INT_MIN_def INT_MAX_def)
qed

theorem parseIterationNum_range_witness:
  "stoi (drop 8 ''restore.999999'') = Inr 999999
   \<and> parseIterationNum ''restore.999999'' = 999999"
proof -
  have a: "length ''restore.999999'' = 14 \<and> take 8 ''restore.999999'' = ''restore.''
             \<and> length (drop 8 ''restore.999999'') = 6
             \<and> list_all isdigit (drop 8 ''restore.999999'')"
    by (simp add: isdigit_of_char)
  have e: "stoi (drop 8 ''restore.999999'') = Inr 999999" by code_simp
  from a parseIterationNum_range[of "''restore.999999''"]
  have "\<exists>v. stoi (drop 8 ''restore.999999'') = Inr v \<and> parseIterationNum ''restore.999999'' = v"
    by blast
  with e show ?thesis by simp
qed

section \<open>Scanning the base directory\<close>

lemma w_fs_put [simp]: "w_fs (put l w) = w_fs w"
  by (simp add: put_def)

lemma w_out_put [simp]: "w_out (put l w) = w_out w @ [l]"
  by (simp add: put_def)

lemma w_fs_puts [simp]: "w_fs (puts ls w) = w_fs w"
  by (simp add: puts_def)

lemma w_out_puts [simp]: "w_out (puts ls w) = w_out w @ ls"
  by (simp add: puts_def)

lemma getAllRestartDirs_Missing: "getAllRestartDirs d Missing = Inr []"
  by (simp add: getAllRestartDirs_def fs_exists_def)

lemma getAllRestartDirs_Unreadable:
  "getAllRestartDirs d (Unreadable m) =
     Inl (RuntimeError (''RestartCleaner: Error scanning directory: '' @ failure_what m))"
  by (cases m) (simp_all add: getAllRestartDirs_def fs_exists_def directory_iterator_def)

lemma getAllRestartDirs_Listing:
  "getAllRestartDirs d (Listing es) =
     Inr (map (\<lambda>e. Path d (d_name e)) (restart_entries (Listing es)))"
  by (simp add: getAllRestartDirs_def fs_exists_def directory_iterator_def restart_entries_def
      parseIterationNum_nonneg_iff)

lemma getAllRestartDirs_cases:
  "getAllRestartDirs d b =
     (case b of
        Unreadable m \<Rightarrow>
          Inl (RuntimeError (''RestartCleaner: Error scanning directory: '' @ failure_what m))
      | _ \<Rightarrow> Inr (map (\<lambda>e. Path d (d_name e)) (restart_entries b)))"
  by (cases b)
    (simp_all add: getAllRestartDirs_Missing getAllRestartDirs_Unreadable
      getAllRestartDirs_Listing restart_entries_def)

lemma restart_entries_valid: "e \<in> set (restart_entries b) \<Longrightarrow> valid_name (d_name e)"
  by (cases b) (auto simp: restart_entries_def)

lemma iteration_nonneg: "e \<in> set (restart_entries b) \<Longrightarrow> 0 \<le> iteration e"
  using restart_entries_valid by (simp add: iteration_def parseIterationNum_nonneg_iff)

lemma filter_iterations:
  "filter (\<lambda>iter. 0 \<le> iter)
     (map (\<lambda>dir. parseIterationNum (filename dir))
        (map (\<lambda>e. Path d (d_name e)) (restart_entries b)))
   = map iteration (restart_entries b)"
proof -
  have "\<forall>e\<in>set (restart_entries b). 0 \<le> parseIterationNum (d_name e)"
    using iteration_nonneg by (auto simp: iteration_def)
  then show ?thesis by (simp add: filter_map comp_def iteration_def cong: map_cong)
qed

lemma getAvailableIterations_result:
  "fst (getAvailableIterations c w) = Inr (sort (map iteration (restart_entries (w_fs w))))"
proof (cases "\<exists>m. w_fs w = Unreadable m")
  case True
  then show ?thesis
    by (auto simp: getAvailableIterations_def getAllRestartDirs_Unreadable restart_entries_def)
next
  case False
  then have "getAllRestartDirs (d_restart_base_path c) (w_fs w) =
      Inr (map (\<lambda>e. Path (d_restart_base_path c) (d_name e)) (restart_entries (w_fs w)))"
    by (cases "w_fs w") (simp_all add: getAllRestartDirs_cases)
  then have "fst (getAvailableIterations c w) =
      Inr (sort (filter (\<lambda>iter. 0 \<le> iter)
        (map (\<lambda>dir. parseIterationNum (filename dir))
           (map (\<lambda>e. Path (d_restart_base_path c) (d_name e)) (restart_entries (w_fs w))))))"
    by (simp only: getAvailableIterations_def sum.case fst_conv)
  then show ?thesis by (simp only: filter_iterations)
qed

lemma getAvailableIterations_world:
  "snd (getAvailableIterations c w) =
     (case getAllRestartDirs (d_restart_base_path c) (w_fs w) of
        Inl e \<Rightarrow> put (Err (''RestartCleaner: Error scanning directories: '' @ what e)) w
      | Inr all_dirs \<Rightarrow> w)"
  by (simp add: getAvailableIterations_def split: sum.splits)

text \<open>
  C4. \<open>getAvailableIterations\<close> never throws, whatever the base directory holds: it
  returns the iteration numbers of the validly named subdirectories in ascending order,
  none of them negative; when the scan throws it writes a diagnostic to the error stream
  and returns the empty list. The file system is left as it was.
\<close>

theorem getAvailableIterations_never_throws:
  "\<exists>its. fst (getAvailableIterations c w) = Inr its
     \<and> its = sort (map iteration (restart_entries (w_fs w)))
     \<and> sorted its \<and> (\<forall>i\<in>set its. 0 \<le> i)
     \<and> w_fs (snd (getAvailableIterations c w)) = w_fs w
     \<and> (\<forall>e. getAllRestartDirs (d_restart_base_path c) (w_fs w) = Inl e \<longrightarrow>
           its = [] \<and>
           w_out (snd (getAvailableIterations c w)) =
             w_out w @ [Err (''RestartCleaner: Error scanning directories: '' @ what e)])
     \<and> (\<forall>dirs. getAllRestartDirs (d_restart_base_path c) (w_fs w) = Inr dirs \<longrightarrow>
           w_out (snd (getAvailableIterations c w)) = w_out w)"
proof -
  let ?its = "sort (map iteration (restart_entries (w_fs w)))"
  have 1: "fst (getAvailableIterations c w) = Inr ?its" by (rule getAvailableIterations_result)
  have 2: "sorted ?its" by simp
  have 3: "\<forall>i\<in>set ?its. 0 \<le> i" using iteration_nonneg by auto
  have 4: "w_fs (snd (getAvailableIterations c w)) = w_fs w"
    by (simp add: getAvailableIterations_world split: sum.splits)
  have 5: "\<forall>e. getAllRestartDirs (d_restart_base_path c) (w_fs w) = Inl e \<longrightarrow>
           ?its = [] \<and>
           w_out (snd (getAvailableIterations c w)) =
             w_out w @ [Err (''RestartCleaner: Error scanning directories: '' @ what e)]"
    by (cases "w_fs w")
      (auto simp: getAvailableIterations_world getAllRestartDirs_cases restart_entries_def)
  have 6: "\<forall>dirs. getAllRestartDirs (d_restart_base_path c) (w_fs w) = Inr dirs \<longrightarrow>
           w_out (snd (getAvailableIterations c w)) = w_out w"
    by (simp add: getAvailableIterations_world)
  from 1 2 3 4 5 6 show ?thesis by blast
qed

theorem getAvailableIterations_never_throws_witness:
  "fst (getAvailableIterations (test_cleaner 10 True) \<lparr>w_fs = test_restart_dir, w_out = []\<rparr>)
     = Inr [1, 100, 200, 300, 1000, 2500, 3000, 5000, 999999]
   \<and> getAvailableIterations (test_cleaner 10 True)
       \<lparr>w_fs = Unreadable (IterationFails ''Permission denied''), w_out = []\<rparr>
     = (Inr [], \<lparr>w_fs = Unreadable (IterationFails ''Permission denied''),
          w_out = [Err (''RestartCleaner: Error scanning directories: ''
                        @ ''RestartCleaner: Error scanning directory: Permission denied'')]\<rparr>)"
proof -
  let ?c = "test_cleaner 10 True"
  let ?w = "\<lparr>w_fs = test_restart_dir, w_out = []\<rparr>"
  let ?u = "\<lparr>w_fs = Unreadable (IterationFails ''Permission denied''), w_out = []\<rparr>"
  have a: "sort (map iteration (restart_entries (w_fs ?w)))
             = [1, 100, 200, 300, 1000, 2500, 3000, 5000, 999999]"
    by code_simp
  have b: "getAllRestartDirs (d_restart_base_path ?c) (w_fs ?u)
             = Inl (RuntimeError ''RestartCleaner: Error scanning directory: Permission denied'')"
    by code_simp
  from getAvailableIterations_never_throws[of ?c ?w] a
  have 1: "fst (getAvailableIterations ?c ?w) = Inr [1, 100, 200, 300, 1000, 2500, 3000, 5000, 999999]"
    by simp
  from getAvailableIterations_never_throws[of ?c ?u] b
  have "fst (getAvailableIterations ?c ?u) = Inr []"
    and "w_fs (snd (getAvailableIterations ?c ?u)) = Unreadable (IterationFails ''Permission denied'')"
    and "w_out (snd (getAvailableIterations ?c ?u)) =
           [Err (''RestartCleaner: Error scanning directories: ''
                        @ ''RestartCleaner: Error scanning directory: Permission denied'')]"
    by auto
  then have 2: "getAvailableIterations ?c ?u
     = (Inr [], \<lparr>w_fs = Unreadable (IterationFails ''Permission denied''),
          w_out = [Err (''RestartCleaner: Error scanning directories: ''
                        @ ''RestartCleaner: Error scanning directory: Permission denied'')]\<rparr>)"
    by (cases "getAvailableIterations ?c ?u") auto
  from 1 2 show ?thesis by blast
qed

section \<open>Construction\<close>

text \<open>
  C8, as amended. The constructor throws exactly when the strategy string is not
  \<^verbatim>\<open>KEEP_RECENT_N\<close>, or the keep-count is not positive, or the base path does not
  exist, or the status query on the base path fails. In the first three cases it throws
  \<^verbatim>\<open>std::invalid_argument\<close>; in the last the \<^verbatim>\<open>std::filesystem_error\<close> of
  \<^verbatim>\<open>fs::exists\<close> leaves the constructor as it is. Otherwise the object holds the four
  values it was given. The members are \<^verbatim>\<open>const\<close>: no operation of the class returns
  a changed object, \<open>cleanup\<close> and \<open>getAvailableIterations\<close> only read it.
\<close>

theorem RestartCleaner_new_fails:
  "((\<exists>e. RestartCleaner_new restart_base_path keep strategy dry_run b = Inl e)
      \<longleftrightarrow> strategy \<noteq> ''KEEP_RECENT_N'' \<or> keep \<le> 0 \<or> b = Missing
            \<or> (\<exists>m. b = Unreadable (StatusFails m)))
   \<and> (strategy \<noteq> ''KEEP_RECENT_N'' \<longrightarrow>
        RestartCleaner_new restart_base_path keep strategy dry_run b =
          Inl (InvalidArgument (''RestartCleaner: Unknown strategy: '' @ strategy)))
   \<and> (strategy = ''KEEP_RECENT_N'' \<and> keep \<le> 0 \<longrightarrow>
        RestartCleaner_new restart_base_path keep strategy dry_run b =
          Inl (InvalidArgument ''RestartCleaner: keep_restart_count must be positive''))
   \<and> (strategy = ''KEEP_RECENT_N'' \<and> 0 < keep \<and> b = Missing \<longrightarrow>
        RestartCleaner_new restart_base_path keep strategy dry_run b =
          Inl (InvalidArgument
                 (''RestartCleaner: restart_base_path does not exist: '' @ restart_base_path)))
   \<and> (strategy = ''KEEP_RECENT_N'' \<and> 0 < keep \<and> b = Unreadable (StatusFails m) \<longrightarrow>
        RestartCleaner_new restart_base_path keep strategy dry_run b =
          Inl (FilesystemError m))
   \<and> (\<forall>c. RestartCleaner_new restart_base_path keep strategy dry_run b = Inr c
          \<longrightarrow> c = \<lparr>d_restart_base_path = restart_base_path, d_strategy = KEEP_RECENT_N,
                     d_keep_restart_count = keep, d_dry_run = dry_run\<rparr>)"
proof -
  have ex: "fs_exists b = Inr True \<or> b = Missing \<and> fs_exists b = Inr False
              \<or> (\<exists>m. b = Unreadable (StatusFails m) \<and> fs_exists b = Inl (FilesystemError m))"
    by (auto simp: fs_exists_def split: base_dir.splits failure.splits)
  have 1: "(\<exists>e. RestartCleaner_new restart_base_path keep strategy dry_run b = Inl e)
      \<longleftrightarrow> strategy \<noteq> ''KEEP_RECENT_N'' \<or> keep \<le> 0 \<or> b = Missing
            \<or> (\<exists>m. b = Unreadable (StatusFails m))"
    using ex
    by (auto simp: RestartCleaner_new_def parseStrategy_def fs_exists_def
        split: base_dir.splits failure.splits)
  have 2: "strategy \<noteq> ''KEEP_RECENT_N'' \<longrightarrow>
        RestartCleaner_new restart_base_path keep strategy dry_run b =
          Inl (InvalidArgument (''RestartCleaner: Unknown strategy: '' @ strategy))"
    by (simp add: RestartCleaner_new_def parseStrategy_def)
  have 3: "strategy = ''KEEP_RECENT_N'' \<and> keep \<le> 0 \<longrightarrow>
        RestartCleaner_new restart_base_path keep strategy dry_run b =
          Inl (InvalidArgument ''RestartCleaner: keep_restart_count must be positive'')"
    by (simp add: RestartCleaner_new_def parseStrategy_def)
  have 4: "strategy = ''KEEP_RECENT_N'' \<and> 0 < keep \<and> b = Missing \<longrightarrow>
        RestartCleaner_new restart_base_path keep strategy dry_run b =
          Inl (InvalidArgument
                 (''RestartCleaner: restart_base_path does not exist: '' @ restart_base_path))"
    by (simp add: RestartCleaner_new_def parseStrategy_def fs_exists_def)
  have 5: "strategy = ''KEEP_RECENT_N'' \<and> 0 < keep \<and> b = Unreadable (StatusFails m) \<longrightarrow>
        RestartCleaner_new restart_base_path keep strategy dry_run b =
          Inl (FilesystemError m)"
    by (simp add: RestartCleaner_new_def parseStrategy_def fs_exists_def)
  have 6: "\<forall>c. RestartCleaner_new restart_base_path keep strategy dry_run b = Inr c
          \<longrightarrow> c = \<lparr>d_restart_base_path = restart_base_path, d_strategy = KEEP_RECENT_N,
                     d_keep_restart_count = keep, d_dry_run = dry_run\<rparr>"
    by (auto simp: RestartCleaner_new_def parseStrategy_def split: if_splits sum.splits)
  from 1 2 3 4 5 6 show ?thesis by blast
qed

theorem RestartCleaner_new_fails_witness:
  "RestartCleaner_new ''temp_negative_test'' (- 1) ''KEEP_RECENT_N'' False (Listing [])
     = Inl (InvalidArgument ''RestartCleaner: keep_restart_count must be positive'')
   \<and> RestartCleaner_new ''/non/existent/directory'' 5 ''KEEP_RECENT_N'' False Missing
     = Inl (InvalidArgument
         ''RestartCleaner: restart_base_path does not exist: /non/existent/directory'')
   \<and> RestartCleaner_new ''test_restart_cleanup/restart_IB2d'' 5 ''SMART_RETENTION'' False
       test_restart_dir
     = Inl (InvalidArgument ''RestartCleaner: Unknown strategy: SMART_RETENTION'')
   \<and> RestartCleaner_new ''/root/restart_IB2d'' 5 ''KEEP_RECENT_N'' False
       (Unreadable (StatusFails ''Permission denied''))
     = Inl (FilesystemError ''Permission denied'')
   \<and> RestartCleaner_new ''test_restart_cleanup/restart_IB2d'' 3 ''KEEP_RECENT_N'' True
       test_restart_dir
     = Inr (test_cleaner 3 True)"
proof -
  have 1: "RestartCleaner_new ''temp_negative_test'' (- 1) ''KEEP_RECENT_N'' False (Listing [])
     = Inl (InvalidArgument ''RestartCleaner: keep_restart_count must be positive'')"
    using RestartCleaner_new_fails[of "''temp_negative_test''" "- 1" "''KEEP_RECENT_N''" False
        "Listing []"]
    by simp
  have 2: "RestartCleaner_new ''/non/existent/directory'' 5 ''KEEP_RECENT_N'' False Missing
     = Inl (InvalidArgument
         ''RestartCleaner: restart_base_path does not exist: /non/existent/directory'')"
    using RestartCleaner_new_fails[of "''/non/existent/directory''" 5 "''KEEP_RECENT_N''" False
        Missing]
    by simp
  have 3: "RestartCleaner_new ''test_restart_cleanup/restart_IB2d'' 5 ''SMART_RETENTION'' False
       test_restart_dir
     = Inl (InvalidArgument ''RestartCleaner: Unknown strategy: SMART_RETENTION'')"
    using RestartCleaner_new_fails[of "''test_restart_cleanup/restart_IB2d''" 5
        "''SMART_RETENTION''" False test_restart_dir]
    by simp
  have 4: "RestartCleaner_new ''/root/restart_IB2d'' 5 ''KEEP_RECENT_N'' False
       (Unreadable (StatusFails ''Permission denied''))
     = Inl (FilesystemError ''Permission denied'')"
    using RestartCleaner_new_fails[of "''/root/restart_IB2d''" 5 "''KEEP_RECENT_N''" False
        "Unreadable (StatusFails ''Permission denied'')" "''Permission denied''"]
    by simp
  have ok: "\<not> (''KEEP_RECENT_N'' \<noteq> ''KEEP_RECENT_N'' \<or> (3::int) \<le> 0
               \<or> test_restart_dir = Missing
               \<or> (\<exists>m. test_restart_dir = Unreadable (StatusFails m)))"
    by (simp add: test_restart_dir_def)
  with RestartCleaner_new_fails[of "''test_restart_cleanup/restart_IB2d''" 3
      "''KEEP_RECENT_N''" True test_restart_dir]
  obtain c where c: "RestartCleaner_new ''test_restart_cleanup/restart_IB2d'' 3
      ''KEEP_RECENT_N'' True test_restart_dir = Inr c"
    by (cases "RestartCleaner_new ''test_restart_cleanup/restart_IB2d'' 3
      ''KEEP_RECENT_N'' True test_restart_dir") auto
  with RestartCleaner_new_fails[of "''test_restart_cleanup/restart_IB2d''" 3
      "''KEEP_RECENT_N''" True test_restart_dir]
  have "c = test_cleaner 3 True" by (simp add: test_cleaner_def)
  with c 1 2 3 4 show ?thesis by simp
qed

text \<open>
  The claim as the specification words it fails: the keep-count is positive, the strategy
  is the recognised one and the base path exists, but its status cannot be queried, and
  the constructor throws.
\<close>

theorem RestartCleaner_new_status_counterexample:
  "(0::int) < 5
   \<and> parseStrategy ''KEEP_RECENT_N'' = Inr KEEP_RECENT_N
   \<and> Unreadable (StatusFails ''Permission denied'') \<noteq> Missing
   \<and> RestartCleaner_new ''/root/restart_IB2d'' 5 ''KEEP_RECENT_N'' False
       (Unreadable (StatusFails ''Permission denied''))
     = Inl (FilesystemError ''Permission denied'')"
  by (simp add: RestartCleaner_new_def parseStrategy_def fs_exists_def)

section \<open>Scan errors in \<open>cleanup\<close>\<close>

lemma cleanup_unfold:
  "cleanup c w =
     keepRecentN c
       (puts [Out (''RestartCleaner: Starting cleanup of '' @ d_restart_base_path c),
              Out (''Keeping '' @ show_int (d_keep_restart_count c)
                     @ '' most recent restart directories'')] w)"
  by (simp add: cleanup_def executeStrategy_def put_def puts_def)

lemma keepRecentN_scan_error:
  "getAllRestartDirs (d_restart_base_path c) (w_fs w) = Inl e \<Longrightarrow> keepRecentN c w = (Inl e, w)"
  by (simp add: keepRecentN_def)

lemma keepRecentN_no_dirs:
  "getAllRestartDirs (d_restart_base_path c) (w_fs w) = Inr [] \<Longrightarrow>
     keepRecentN c w = (Inr (), put (Out ''No restart directories found'') w)"
  by (simp add: keepRecentN_def)

text \<open>
  C3, as amended. When the base path exists but cannot be iterated at the time of the
  call, the scan throws a \<^verbatim>\<open>std::runtime_error\<close> carrying the cause, \<open>cleanup\<close> passes
  it on to its caller after its two opening lines, and the file system is untouched. A
  base path that no longer exists is no error: \<open>getAllRestartDirs\<close> guards the iteration
  with \<^verbatim>\<open>fs::exists\<close>, the scan is empty and \<open>cleanup\<close> returns normally.
\<close>

theorem cleanup_scan_error:
  "(w_fs w = Unreadable m \<longrightarrow>
      cleanup c w =
        (Inl (RuntimeError (''RestartCleaner: Error scanning directory: '' @ failure_what m)),
         puts [Out (''RestartCleaner: Starting cleanup of '' @ d_restart_base_path c),
               Out (''Keeping '' @ show_int (d_keep_restart_count c)
                      @ '' most recent restart directories'')] w))
   \<and> (w_fs w = Missing \<longrightarrow>
      cleanup c w =
        (Inr (),
         puts [Out (''RestartCleaner: Starting cleanup of '' @ d_restart_base_path c),
               Out (''Keeping '' @ show_int (d_keep_restart_count c)
                      @ '' most recent restart directories''),
               Out ''No restart directories found''] w))"
proof (intro conjI impI)
  assume "w_fs w = Unreadable m"
  then show "cleanup c w =
        (Inl (RuntimeError (''RestartCleaner: Error scanning directory: '' @ failure_what m)),
         puts [Out (''RestartCleaner: Starting cleanup of '' @ d_restart_base_path c),
               Out (''Keeping '' @ show_int (d_keep_restart_count c)
                      @ '' most recent restart directories'')] w)"
    unfolding cleanup_unfold
    by (intro keepRecentN_scan_error) (simp add: getAllRestartDirs_Unreadable)
next
  assume "w_fs w = Missing"
  then have "getAllRestartDirs (d_restart_base_path c)
      (w_fs (puts [Out (''RestartCleaner: Starting cleanup of '' @ d_restart_base_path c),
              Out (''Keeping '' @ show_int (d_keep_restart_count c)
                     @ '' most recent restart directories'')] w)) = Inr []"
    by (simp add: getAllRestartDirs_Missing)
  from keepRecentN_no_dirs[OF this]
  show "cleanup c w =
        (Inr (),
         puts [Out (''RestartCleaner: Starting cleanup of '' @ d_restart_base_path c),
               Out (''Keeping '' @ show_int (d_keep_restart_count c)
                      @ '' most recent restart directories''),
               Out ''No restart directories found''] w)"
    unfolding cleanup_unfold by (simp add: put_def puts_def)
qed

theorem cleanup_scan_error_witness:
  "cleanup (test_cleaner 3 False) \<lparr>w_fs = Unreadable (IterationFails ''Permission denied''), w_out = []\<rparr> =
     (Inl (RuntimeError ''RestartCleaner: Error scanning directory: Permission denied''),
      \<lparr>w_fs = Unreadable (IterationFails ''Permission denied''),
        w_out = [Out ''RestartCleaner: Starting cleanup of test_restart_cleanup/restart_IB2d'',
                 Out ''Keeping 3 most recent restart directories'']\<rparr>)
   \<and> cleanup (test_cleaner 3 False) \<lparr>w_fs = Missing, w_out = []\<rparr> =
     (Inr (),
      \<lparr>w_fs = Missing,
        w_out = [Out ''RestartCleaner: Starting cleanup of test_restart_cleanup/restart_IB2d'',
                 Out ''Keeping 3 most recent restart directories'',
                 Out ''No restart directories found'']\<rparr>)"
proof -
  have s: "show_int 3 = ''3''" by code_simp
  from cleanup_scan_error[of "\<lparr>w_fs = Unreadable (IterationFails ''Permission denied''), w_out = []\<rparr>"
      "IterationFails ''Permission denied''" "test_cleaner 3 False"]
  have 1: "cleanup (test_cleaner 3 False)
      \<lparr>w_fs = Unreadable (IterationFails ''Permission denied''), w_out = []\<rparr> =
     (Inl (RuntimeError ''RestartCleaner: Error scanning directory: Permission denied''),
      \<lparr>w_fs = Unreadable (IterationFails ''Permission denied''),
        w_out = [Out ''RestartCleaner: Starting cleanup of test_restart_cleanup/restart_IB2d'',
                 Out ''Keeping 3 most recent restart directories'']\<rparr>)"
    by (simp add: puts_def test_cleaner_def s)
  from cleanup_scan_error[of "\<lparr>w_fs = Missing, w_out = []\<rparr>" "IterationFails []"
      "test_cleaner 3 False"]
  have 2: "cleanup (test_cleaner 3 False) \<lparr>w_fs = Missing, w_out = []\<rparr> =
     (Inr (),
      \<lparr>w_fs = Missing,
        w_out = [Out ''RestartCleaner: Starting cleanup of test_restart_cleanup/restart_IB2d'',
                 Out ''Keeping 3 most recent restart directories'',
                 Out ''No restart directories found'']\<rparr>)"
    by (simp add: puts_def test_cleaner_def s)
  from 1 2 show ?thesis by blast
qed

text \<open>
  The claim as the specification words it fails: the base directory exists when the
  object is constructed and is gone when \<open>cleanup\<close> runs, and \<open>cleanup\<close> returns
  normally.
\<close>

theorem cleanup_missing_base_counterexample:
  "RestartCleaner_new ''test_restart_cleanup/restart_IB2d'' 3 ''KEEP_RECENT_N'' False
       test_restart_dir = Inr (test_cleaner 3 False)
   \<and> fs_exists Missing = Inr False
   \<and> cleanup (test_cleaner 3 False) \<lparr>w_fs = Missing, w_out = []\<rparr> =
       (Inr (),
        \<lparr>w_fs = Missing,
          w_out = [Out ''RestartCleaner: Starting cleanup of test_restart_cleanup/restart_IB2d'',
                   Out ''Keeping 3 most recent restart directories'',
                   Out ''No restart directories found'']\<rparr>)"
  by code_simp

section \<open>The retention strategy\<close>

subsection \<open>Integer conversions\<close>

lemma to_int32_id: "0 \<le> x \<Longrightarrow> x < 2147483648 \<Longrightarrow> to_int32 x = x"
  by (simp add: to_int32_def)

lemma to_int32_le: "0 \<le> x \<Longrightarrow> to_int32 x \<le> x"
proof -
  assume "0 \<le> x"
  then have "(x + 2147483648) mod 4294967296 \<le> x + 2147483648"
    by (intro zmod_le_nonneg_dividend) simp
  then show ?thesis by (simp add: to_int32_def)
qed

lemma to_int32_range: "- 2147483648 \<le> to_int32 x \<and> to_int32 x < 2147483648"
  by (simp add: to_int32_def) 

lemma mod_size_t_int32: "(z::int) mod 18446744073709551616 mod 4294967296 = z mod 4294967296"
proof -
  have "(18446744073709551616::int) = 4294967296 * 4294967296" by simp
  then have "(4294967296::int) dvd 18446744073709551616" by (simp only: dvd_triv_left)
  then show ?thesis by (rule mod_mod_cancel)
qed

lemma to_int32_size_t: "to_int32 (to_size_t (x - to_size_t y)) = to_int32 (x - y)"
proof -
  have "(x - y mod 18446744073709551616) mod 18446744073709551616 mod 4294967296
          = (x - y mod 18446744073709551616) mod 4294967296"
    by (rule mod_size_t_int32)
  also have "\<dots> = (x mod 4294967296 - y mod 18446744073709551616 mod 4294967296) mod 4294967296"
    by (simp only: mod_diff_eq)
  also have "\<dots> = (x mod 4294967296 - y mod 4294967296) mod 4294967296"
    by (simp only: mod_size_t_int32)
  also have "\<dots> = (x - y) mod 4294967296"
    by (simp only: mod_diff_eq)
  finally have a: "to_size_t (x - to_size_t y) mod 4294967296 = (x - y) mod 4294967296"
    by (simp only: to_size_t_def)
  have "(to_size_t (x - to_size_t y) + 2147483648) mod 4294967296
          = (to_size_t (x - to_size_t y) mod 4294967296 + 2147483648) mod 4294967296"
    by (simp only: mod_add_left_eq)
  also have "\<dots> = (x - y + 2147483648) mod 4294967296"
    by (simp only: a mod_add_left_eq)
  finally show ?thesis by (simp only: to_int32_def)
qed

lemma to_int32_diff:
  assumes "0 < k" and "k < to_int32 x"
  shows "to_int32 (x - k) = to_int32 x - k"
proof -
  define t where "t = to_int32 x"
  have r: "- 2147483648 \<le> t" "t < 2147483648" using to_int32_range[of x] by (simp_all add: t_def)
  have "(x + 2147483648) mod 4294967296 = t + 2147483648" by (simp add: t_def to_int32_def)
  then have "(x + 2147483648 - k) mod 4294967296 = (t + 2147483648 - k) mod 4294967296"
    by (metis mod_diff_left_eq)
  also have "\<dots> = t + 2147483648 - k" using assms r by (simp add: t_def)
  finally have "(x - k + 2147483648) mod 4294967296 = t + 2147483648 - k"
    by (simp add: algebra_simps)
  then show ?thesis by (simp add: to_int32_def t_def)
qed

subsection \<open>The deletion loop\<close>

lemma delete_loop_foldl:
  "0 \<le> i \<Longrightarrow> n \<le> int (length dirs) \<Longrightarrow>
     delete_loop c dirs i n w =
       (Inr (), foldl (\<lambda>w x. delete_one c (snd x) w) w (take (nat (n - i)) (drop (nat i) dirs)))"
proof (induction c dirs i n w rule: delete_loop.induct)
  case (1 c dirs i n w)
  show ?case
  proof (cases "i < n")
    case False
    then show ?thesis by (simp add: delete_loop.simps)
  next
    case True
    with "1.prems" have in_range: "\<not> (i < 0 \<or> int (length dirs) \<le> i)" by simp
    from True "1.prems" have lt: "nat i < length dirs" by simp
    have "take (nat (n - i)) (drop (nat i) dirs)
            = dirs ! nat i # take (nat (n - (i + 1))) (drop (nat (i + 1)) dirs)"
    proof -
      from True have "nat (n - i) = Suc (nat (n - (i + 1)))" by simp
      moreover from "1.prems"(1) have "nat (i + 1) = Suc (nat i)" by simp
      ultimately show ?thesis using lt by (simp add: Cons_nth_drop_Suc[symmetric])
    qed
    moreover from "1.IH"[OF True in_range] "1.prems"
    have "delete_loop c dirs (i + 1) n (delete_one c (snd (dirs ! nat i)) w) =
       (Inr (), foldl (\<lambda>w x. delete_one c (snd x) w) (delete_one c (snd (dirs ! nat i)) w)
          (take (nat (n - (i + 1))) (drop (nat (i + 1)) dirs)))"
      by simp
    ultimately show ?thesis using True in_range
      by (subst delete_loop.simps) simp
  qed
qed

lemma delete_loop_dry_run_fs:
  "d_dry_run c \<Longrightarrow> w_fs (snd (delete_loop c dirs i n w)) = w_fs w"
proof (induction c dirs i n w rule: delete_loop.induct)
  case (1 c dirs i n w)
  show ?case
  proof (cases "i < n \<and> \<not> (i < 0 \<or> int (length dirs) \<le> i)")
    case True
    with "1.IH" "1.prems"
    have "w_fs (snd (delete_loop c dirs (i + 1) n (delete_one c (snd (dirs ! nat i)) w)))
            = w_fs (delete_one c (snd (dirs ! nat i)) w)"
      by simp
    also have "\<dots> = w_fs w" using "1.prems" by (simp add: delete_one_def)
    finally show ?thesis using True by (subst delete_loop.simps) simp
  next
    case False
    then show ?thesis by (subst delete_loop.simps) auto
  qed
qed

lemma foldl_dry_run:
  "d_dry_run c \<Longrightarrow>
     foldl (\<lambda>w x. delete_one c (snd x) w) w xs =
       puts (map (\<lambda>x. Out (''  DRY RUN: Would delete '' @ show_path (snd x))) xs) w"
proof (induction xs arbitrary: w)
  case Nil
  then show ?case by (simp add: puts_def)
next
  case (Cons x xs)
  then show ?case by (simp add: delete_one_def puts_def put_def)
qed

subsection \<open>The vector \<open>dirs_with_iter\<close>\<close>

lemma dirs_with_iter_scan:
  "dirs_with_iter (map (\<lambda>e. Path d (d_name e)) (restart_entries b)) =
     sort_key (\<lambda>(iter, dir). (iter, filename dir))
       (map (\<lambda>e. (iteration e, Path d (d_name e))) (restart_entries b))"
proof -
  have "\<forall>e\<in>set (restart_entries b). 0 \<le> parseIterationNum (d_name e)"
    using iteration_nonneg by (auto simp: iteration_def)
  then have "filter (\<lambda>(iter, dir). 0 \<le> iter)
          (map (\<lambda>dir. (parseIterationNum (filename dir), dir))
             (map (\<lambda>e. Path d (d_name e)) (restart_entries b)))
        = map (\<lambda>e. (iteration e, Path d (d_name e))) (restart_entries b)"
    by (simp add: filter_map comp_def iteration_def cong: map_cong)
  then show ?thesis by (simp only: dirs_with_iter_def)
qed

lemma length_dirs_with_iter_scan:
  "length (dirs_with_iter (map (\<lambda>e. Path d (d_name e)) (restart_entries b)))
     = length (restart_entries b)"
  by (simp only: dirs_with_iter_scan length_sort length_map)

lemma scan_ok:
  "(\<forall>m. b \<noteq> Unreadable m) \<Longrightarrow>
     getAllRestartDirs d b = Inr (map (\<lambda>e. Path d (d_name e)) (restart_entries b))"
  by (cases b) (simp_all add: getAllRestartDirs_cases)

subsection \<open>The branches of \<open>keepRecentN\<close>\<close>

lemma keepRecentN_keep_all:
  assumes "\<forall>m. w_fs w \<noteq> Unreadable m"
    and "int (length (restart_entries (w_fs w))) \<le> d_keep_restart_count c"
  shows "keepRecentN c w =
     (Inr (),
      puts (if restart_entries (w_fs w) = [] then [Out ''No restart directories found'']
            else [Out (''Found '' @ show_nat (length (restart_entries (w_fs w)))
                         @ '' restart directories''),
                  Out (''No cleanup needed, keeping all ''
                         @ show_nat (length (restart_entries (w_fs w))) @ '' directories'')]) w)"
proof -
  let ?d = "d_restart_base_path c"
  let ?vs = "restart_entries (w_fs w)"
  have g: "getAllRestartDirs ?d (w_fs w) = Inr (map (\<lambda>e. Path ?d (d_name e)) ?vs)"
    using assms(1) by (rule scan_ok)
  have "to_int32 (int (length ?vs)) \<le> int (length ?vs)" by (rule to_int32_le) simp
  with assms(2) have le: "to_int32 (int (length ?vs)) \<le> d_keep_restart_count c" by simp
  show ?thesis
    unfolding keepRecentN_def g
    by (simp add: Let_def length_dirs_with_iter_scan le put_def puts_def)
qed

lemma keepRecentN_delete:
  assumes "\<forall>m. w_fs w \<noteq> Unreadable m"
    and "0 < d_keep_restart_count c"
    and "d_keep_restart_count c < int (length (restart_entries (w_fs w)))"
    and "length (restart_entries (w_fs w)) < 2147483648"
  shows "keepRecentN c w =
     (Inr (),
      foldl (\<lambda>w x. delete_one c (snd x) w)
        (puts [Out (''Found '' @ show_nat (length (restart_entries (w_fs w)))
                      @ '' restart directories''),
               Out (''Deleting ''
                      @ show_int (int (length (restart_entries (w_fs w))) - d_keep_restart_count c)
                      @ '' old restart directories (keeping ''
                      @ show_int (d_keep_restart_count c) @ '' most recent)'')] w)
        (take (length (restart_entries (w_fs w)) - nat (d_keep_restart_count c))
           (dirs_with_iter
              (map (\<lambda>e. Path (d_restart_base_path c) (d_name e)) (restart_entries (w_fs w))))))"
proof -
  let ?d = "d_restart_base_path c"
  let ?vs = "restart_entries (w_fs w)"
  let ?k = "d_keep_restart_count c"
  let ?dirs = "dirs_with_iter (map (\<lambda>e. Path ?d (d_name e)) ?vs)"
  have g: "getAllRestartDirs ?d (w_fs w) = Inr (map (\<lambda>e. Path ?d (d_name e)) ?vs)"
    using assms(1) by (rule scan_ok)
  have len: "length ?dirs = length ?vs" by (rule length_dirs_with_iter_scan)
  have t: "to_int32 (int (length ?vs)) = int (length ?vs)"
    using assms(4) by (intro to_int32_id) simp_all
  have n: "to_int32 (to_size_t (int (length ?vs) - to_size_t ?k)) = int (length ?vs) - ?k"
    using assms(2,3) t by (simp add: to_int32_size_t to_int32_diff)
  have ne: "?vs \<noteq> []" using assms(2,3) by auto
  have loop: "\<And>w'. delete_loop c ?dirs 0 (int (length ?vs) - ?k) w' =
      (Inr (), foldl (\<lambda>w x. delete_one c (snd x) w) w'
         (take (length ?vs - nat ?k) ?dirs))"
  proof -
    fix w'
    have "nat (int (length ?vs) - ?k - 0) = length ?vs - nat ?k" using assms(2) by simp
    moreover have "int (length ?vs) - ?k \<le> int (length ?dirs)" using assms(2) len by simp
    ultimately show "delete_loop c ?dirs 0 (int (length ?vs) - ?k) w' =
      (Inr (), foldl (\<lambda>w x. delete_one c (snd x) w) w'
         (take (length ?vs - nat ?k) ?dirs))"
      using delete_loop_foldl[of 0 "int (length ?vs) - ?k" ?dirs c w'] by simp
  qed
  have "\<not> int (length ?vs) \<le> ?k" using assms(3) by simp
  then show ?thesis
    unfolding keepRecentN_def g
    by (simp add: Let_def len t n ne loop put_def puts_def)
qed

subsection \<open>At most a million restart directories\<close>

lemma distinct_restart_names:
  "well_formed b \<Longrightarrow> distinct (map d_name (restart_entries b))"
  by (cases b) (simp_all add: well_formed_def restart_entries_def distinct_map_filter)

lemma distinct_iterations:
  assumes "well_formed b"
  shows "distinct (map iteration (restart_entries b))"
proof -
  have "inj_on parseIterationNum (set (map d_name (restart_entries b)))"
    using restart_entries_valid parseIterationNum_inj by (auto simp: inj_on_def)
  with distinct_restart_names[OF assms]
  have "distinct (map parseIterationNum (map d_name (restart_entries b)))"
    by (simp only: distinct_map)
  then show ?thesis by (simp add: comp_def iteration_def[abs_def])
qed

lemma restart_entries_bound:
  assumes "well_formed b"
  shows "length (restart_entries b) \<le> 1000000"
proof -
  have "set (map iteration (restart_entries b)) \<subseteq> {0..999999}"
    using iteration_nonneg parseIterationNum_upper by (auto simp: iteration_def)
  then have "card (set (map iteration (restart_entries b))) \<le> card {0..999999::int}"
    by (intro card_mono) simp_all
  with distinct_card[OF distinct_iterations[OF assms]] show ?thesis by simp
qed

subsection \<open>Nothing to delete\<close>

text \<open>
  C5. When the scan finds no more valid entries than the keep-count (none at all
  included), \<open>cleanup\<close> returns normally, reports that no restart directories were found
  or that no cleanup is needed, and leaves the file system as it was, whatever the dry-run
  flag.
\<close>

theorem cleanup_keeps_all:
  "(\<forall>m. w_fs w \<noteq> Unreadable m)
     \<and> int (length (restart_entries (w_fs w))) \<le> d_keep_restart_count c \<longrightarrow>
   cleanup c w =
     (Inr (),
      puts ([Out (''RestartCleaner: Starting cleanup of '' @ d_restart_base_path c),
             Out (''Keeping '' @ show_int (d_keep_restart_count c)
                    @ '' most recent restart directories'')]
            @ (if restart_entries (w_fs w) = [] then [Out ''No restart directories found'']
               else [Out (''Found '' @ show_nat (length (restart_entries (w_fs w)))
                            @ '' restart directories''),
                     Out (''No cleanup needed, keeping all ''
                            @ show_nat (length (restart_entries (w_fs w)))
                            @ '' directories'')])) w)
   \<and> w_fs (snd (cleanup c w)) = w_fs w"
proof (intro impI)
  let ?hdr = "[Out (''RestartCleaner: Starting cleanup of '' @ d_restart_base_path c),
             Out (''Keeping '' @ show_int (d_keep_restart_count c)
                    @ '' most recent restart directories'')]"
  assume a: "(\<forall>m. w_fs w \<noteq> Unreadable m)
     \<and> int (length (restart_entries (w_fs w))) \<le> d_keep_restart_count c"
  then have 1: "\<forall>m. w_fs (puts ?hdr w) \<noteq> Unreadable m"
    and 2: "int (length (restart_entries (w_fs (puts ?hdr w)))) \<le> d_keep_restart_count c"
    by simp_all
  have eq: "cleanup c w =
     (Inr (),
      puts (?hdr
            @ (if restart_entries (w_fs w) = [] then [Out ''No restart directories found'']
               else [Out (''Found '' @ show_nat (length (restart_entries (w_fs w)))
                            @ '' restart directories''),
                     Out (''No cleanup needed, keeping all ''
                            @ show_nat (length (restart_entries (w_fs w)))
                            @ '' directories'')])) w)"
    unfolding cleanup_unfold keepRecentN_keep_all[OF 1 2]
    by (simp add: puts_def)
  then have "w_fs (snd (cleanup c w)) = w_fs w" by simp
  with eq show "cleanup c w =
     (Inr (),
      puts (?hdr
            @ (if restart_entries (w_fs w) = [] then [Out ''No restart directories found'']
               else [Out (''Found '' @ show_nat (length (restart_entries (w_fs w)))
                            @ '' restart directories''),
                     Out (''No cleanup needed, keeping all ''
                            @ show_nat (length (restart_entries (w_fs w)))
                            @ '' directories'')])) w)
   \<and> w_fs (snd (cleanup c w)) = w_fs w" by blast
qed

lemma test_restart_entries:
  "restart_entries test_restart_dir = map directory valid_dirs"
  by code_simp

theorem cleanup_keeps_all_witness:
  "cleanup (test_cleaner 10 False) \<lparr>w_fs = test_restart_dir, w_out = []\<rparr> =
     (Inr (),
      \<lparr>w_fs = test_restart_dir,
        w_out = [Out ''RestartCleaner: Starting cleanup of test_restart_cleanup/restart_IB2d'',
                 Out ''Keeping 10 most recent restart directories'',
                 Out ''Found 9 restart directories'',
                 Out ''No cleanup needed, keeping all 9 directories'']\<rparr>)
   \<and> cleanup (test_cleaner 5 True) \<lparr>w_fs = Listing (map directory invalid_dirs), w_out = []\<rparr> =
     (Inr (),
      \<lparr>w_fs = Listing (map directory invalid_dirs),
        w_out = [Out ''RestartCleaner: Starting cleanup of test_restart_cleanup/restart_IB2d'',
                 Out ''Keeping 5 most recent restart directories'',
                 Out ''No restart directories found'']\<rparr>)"
proof -
  let ?w = "\<lparr>w_fs = test_restart_dir, w_out = []\<rparr>"
  let ?v = "\<lparr>w_fs = Listing (map directory invalid_dirs), w_out = []\<rparr>"
  have n: "length (restart_entries test_restart_dir) = 9"
    by (simp add: test_restart_entries valid_dirs_def)
  have e: "restart_entries (Listing (map directory invalid_dirs)) = []" by code_simp
  have s: "show_int 10 = ''10''" "show_nat 9 = ''9''" "show_int 5 = ''5''" by code_simp+
  have r: "\<forall>m. test_restart_dir \<noteq> Unreadable m" by (simp add: test_restart_dir_def)
  from n have ne: "restart_entries test_restart_dir \<noteq> []" by auto
  from cleanup_keeps_all[of ?w "test_cleaner 10 False"] n r ne
  have 1: "cleanup (test_cleaner 10 False) ?w =
     (Inr (),
      \<lparr>w_fs = test_restart_dir,
        w_out = [Out ''RestartCleaner: Starting cleanup of test_restart_cleanup/restart_IB2d'',
                 Out ''Keeping 10 most recent restart directories'',
                 Out ''Found 9 restart directories'',
                 Out ''No cleanup needed, keeping all 9 directories'']\<rparr>)"
    by (simp add: test_cleaner_def puts_def s)
  from cleanup_keeps_all[of ?v "test_cleaner 5 True"] e
  have 2: "cleanup (test_cleaner 5 True) ?v =
     (Inr (),
      \<lparr>w_fs = Listing (map directory invalid_dirs),
        w_out = [Out ''RestartCleaner: Starting cleanup of test_restart_cleanup/restart_IB2d'',
                 Out ''Keeping 5 most recent restart directories'',
                 Out ''No restart directories found'']\<rparr>)"
    by (simp add: test_cleaner_def puts_def s)
  from 1 2 show ?thesis by blast
qed

subsection \<open>Dry run\<close>

lemma keepRecentN_dry_run_fs:
  "d_dry_run c \<Longrightarrow> w_fs (snd (keepRecentN c w)) = w_fs w"
  by (simp add: keepRecentN_def Let_def delete_loop_dry_run_fs split: sum.splits)

lemma cleanup_dry_run_fs:
  "d_dry_run c \<Longrightarrow> w_fs (snd (cleanup c w)) = w_fs w"
  by (simp add: cleanup_unfold keepRecentN_dry_run_fs)

text \<open>
  C6. With the dry-run flag set, \<open>cleanup\<close> does not change the file system, in any
  state of the base directory, and \<open>getAvailableIterations\<close> returns after it what it
  returned before it. When there is something to delete, each entry of the deletion set
  is reported by one \<^verbatim>\<open>DRY RUN: Would delete\<close> line and nothing else happens.
\<close>

theorem cleanup_dry_run_noop:
  "d_dry_run c \<longrightarrow>
     w_fs (snd (cleanup c w)) = w_fs w
     \<and> fst (getAvailableIterations c (snd (cleanup c w))) = fst (getAvailableIterations c w)
     \<and> (0 < d_keep_restart_count c \<and> well_formed (w_fs w) \<and> (\<forall>m. w_fs w \<noteq> Unreadable m)
          \<and> d_keep_restart_count c < int (length (restart_entries (w_fs w))) \<longrightarrow>
        cleanup c w =
          (Inr (),
           puts ([Out (''RestartCleaner: Starting cleanup of '' @ d_restart_base_path c),
                  Out (''Keeping '' @ show_int (d_keep_restart_count c)
                         @ '' most recent restart directories''),
                  Out (''Found '' @ show_nat (length (restart_entries (w_fs w)))
                         @ '' restart directories''),
                  Out (''Deleting ''
                         @ show_int (int (length (restart_entries (w_fs w)))
                                       - d_keep_restart_count c)
                         @ '' old restart directories (keeping ''
                         @ show_int (d_keep_restart_count c) @ '' most recent)'')]
                 @ map (\<lambda>x. Out (''  DRY RUN: Would delete '' @ show_path (snd x)))
                     (take (length (restart_entries (w_fs w)) - nat (d_keep_restart_count c))
                        (dirs_with_iter
                           (map (\<lambda>e. Path (d_restart_base_path c) (d_name e))
                              (restart_entries (w_fs w)))))) w))"
proof (intro impI conjI)
  assume dry: "d_dry_run c"
  then show fs: "w_fs (snd (cleanup c w)) = w_fs w" by (rule cleanup_dry_run_fs)
  then show "fst (getAvailableIterations c (snd (cleanup c w))) = fst (getAvailableIterations c w)"
    by (simp only: getAvailableIterations_result)
next
  let ?hdr = "[Out (''RestartCleaner: Starting cleanup of '' @ d_restart_base_path c),
              Out (''Keeping '' @ show_int (d_keep_restart_count c)
                     @ '' most recent restart directories'')]"
  assume dry: "d_dry_run c"
  assume a: "0 < d_keep_restart_count c \<and> well_formed (w_fs w) \<and> (\<forall>m. w_fs w \<noteq> Unreadable m)
          \<and> d_keep_restart_count c < int (length (restart_entries (w_fs w)))"
  then have 1: "\<forall>m. w_fs (puts ?hdr w) \<noteq> Unreadable m"
    and 2: "0 < d_keep_restart_count c"
    and 3: "d_keep_restart_count c < int (length (restart_entries (w_fs (puts ?hdr w))))"
    by simp_all
  from a restart_entries_bound[of "w_fs w"]
  have 4: "length (restart_entries (w_fs (puts ?hdr w))) < 2147483648" by simp
  show "cleanup c w =
          (Inr (),
           puts ([Out (''RestartCleaner: Starting cleanup of '' @ d_restart_base_path c),
                  Out (''Keeping '' @ show_int (d_keep_restart_count c)
                         @ '' most recent restart directories''),
                  Out (''Found '' @ show_nat (length (restart_entries (w_fs w)))
                         @ '' restart directories''),
                  Out (''Deleting ''
                         @ show_int (int (length (restart_entries (w_fs w)))
                                       - d_keep_restart_count c)
                         @ '' old restart directories (keeping ''
                         @ show_int (d_keep_restart_count c) @ '' most recent)'')]
                 @ map (\<lambda>x. Out (''  DRY RUN: Would delete '' @ show_path (snd x)))
                     (take (length (restart_entries (w_fs w)) - nat (d_keep_restart_count c))
                        (dirs_with_iter
                           (map (\<lambda>e. Path (d_restart_base_path c) (d_name e))
                              (restart_entries (w_fs w)))))) w)"
    unfolding cleanup_unfold keepRecentN_delete[OF 1 2 3 4] foldl_dry_run[OF dry]
    by (simp add: puts_def)
qed

lemma test_dirs_with_iter:
  "dirs_with_iter (map (\<lambda>e. Path ''test_restart_cleanup/restart_IB2d'' (d_name e))
       (restart_entries test_restart_dir)) =
     [(1, Path ''test_restart_cleanup/restart_IB2d'' ''restore.000001''),
      (100, Path ''test_restart_cleanup/restart_IB2d'' ''restore.000100''),
      (200, Path ''test_restart_cleanup/restart_IB2d'' ''restore.000200''),
      (300, Path ''test_restart_cleanup/restart_IB2d'' ''restore.000300''),
      (1000, Path ''test_restart_cleanup/restart_IB2d'' ''restore.001000''),
      (2500, Path ''test_restart_cleanup/restart_IB2d'' ''restore.002500''),
      (3000, Path ''test_restart_cleanup/restart_IB2d'' ''restore.003000''),
      (5000, Path ''test_restart_cleanup/restart_IB2d'' ''restore.005000''),
      (999999, Path ''test_restart_cleanup/restart_IB2d'' ''restore.999999'')]"
  by code_simp

lemma test_well_formed: "well_formed test_restart_dir"
  by code_simp

theorem cleanup_dry_run_noop_witness:
  "cleanup (test_cleaner 3 True) \<lparr>w_fs = test_restart_dir, w_out = []\<rparr> =
     (Inr (),
      \<lparr>w_fs = test_restart_dir,
        w_out =
          [Out ''RestartCleaner: Starting cleanup of test_restart_cleanup/restart_IB2d'',
           Out ''Keeping 3 most recent restart directories'',
           Out ''Found 9 restart directories'',
           Out ''Deleting 6 old restart directories (keeping 3 most recent)'',
           Out (''  DRY RUN: Would delete ''
                  @ quoted ''test_restart_cleanup/restart_IB2d/restore.000001''),
           Out (''  DRY RUN: Would delete ''
                  @ quoted ''test_restart_cleanup/restart_IB2d/restore.000100''),
           Out (''  DRY RUN: Would delete ''
                  @ quoted ''test_restart_cleanup/restart_IB2d/restore.000200''),
           Out (''  DRY RUN: Would delete ''
                  @ quoted ''test_restart_cleanup/restart_IB2d/restore.000300''),
           Out (''  DRY RUN: Would delete ''
                  @ quoted ''test_restart_cleanup/restart_IB2d/restore.001000''),
           Out (''  DRY RUN: Would delete ''
                  @ quoted ''test_restart_cleanup/restart_IB2d/restore.002500'')]\<rparr>)
   \<and> fst (getAvailableIterations (test_cleaner 3 True)
            (snd (cleanup (test_cleaner 3 True) \<lparr>w_fs = test_restart_dir, w_out = []\<rparr>)))
       = fst (getAvailableIterations (test_cleaner 3 True)
               \<lparr>w_fs = test_restart_dir, w_out = []\<rparr>)"
proof -
  let ?c = "test_cleaner 3 True"
  let ?w = "\<lparr>w_fs = test_restart_dir, w_out = []\<rparr>"
  have dry: "d_dry_run ?c" by (simp add: test_cleaner_def)
  have n: "length (restart_entries test_restart_dir) = 9"
    by (simp add: test_restart_entries valid_dirs_def)
  have r: "\<forall>m. test_restart_dir \<noteq> Unreadable m" by (simp add: test_restart_dir_def)
  have s: "show_int 3 = ''3''" "show_nat 9 = ''9''" "show_int 6 = ''6''" by code_simp+
  have p: "\<And>n. path_string (Path ''test_restart_cleanup/restart_IB2d'' n)
             = ''test_restart_cleanup/restart_IB2d/'' @ n"
    by (simp add: path_string_def)
  from cleanup_dry_run_noop[of ?c ?w] dry n r test_well_formed
  have "cleanup ?c ?w =
     (Inr (),
      \<lparr>w_fs = test_restart_dir,
        w_out =
          [Out ''RestartCleaner: Starting cleanup of test_restart_cleanup/restart_IB2d'',
           Out ''Keeping 3 most recent restart directories'',
           Out ''Found 9 restart directories'',
           Out ''Deleting 6 old restart directories (keeping 3 most recent)'',
           Out (''  DRY RUN: Would delete ''
                  @ quoted ''test_restart_cleanup/restart_IB2d/restore.000001''),
           Out (''  DRY RUN: Would delete ''
                  @ quoted ''test_restart_cleanup/restart_IB2d/restore.000100''),
           Out (''  DRY RUN: Would delete ''
                  @ quoted ''test_restart_cleanup/restart_IB2d/restore.000200''),
           Out (''  DRY RUN: Would delete ''
                  @ quoted ''test_restart_cleanup/restart_IB2d/restore.000300''),
           Out (''  DRY RUN: Would delete ''
                  @ quoted ''test_restart_cleanup/restart_IB2d/restore.001000''),
           Out (''  DRY RUN: Would delete ''
                  @ quoted ''test_restart_cleanup/restart_IB2d/restore.002500'')]\<rparr>)"
    by (simp add: test_cleaner_def test_dirs_with_iter puts_def s show_path_def p)
  moreover from cleanup_dry_run_noop[of ?c ?w] dry
  have "fst (getAvailableIterations ?c (snd (cleanup ?c ?w))) = fst (getAvailableIterations ?c ?w)"
    by blast
  ultimately show ?thesis by blast
qed

subsection \<open>Deleting\<close>

lemma remove_all_Listing:
  "remove_all p (Listing es) =
     (case remove_error_at es (filename p) of
        Some m \<Rightarrow> Inl (FilesystemError m)
      | None \<Rightarrow> Inr (Listing (filter (\<lambda>e. d_name e \<noteq> filename p) es)))"
proof (cases "find (\<lambda>e. d_name e = filename p) es")
  case None
  then have "filter (\<lambda>e. d_name e \<noteq> filename p) es = es"
    by (auto simp: find_None_iff filter_id_conv)
  with None show ?thesis by (simp add: remove_all_def remove_error_at_def)
next
  case (Some e)
  then show ?thesis by (simp add: remove_all_def remove_error_at_def split: option.splits)
qed

lemma find_filter_other:
  "n \<noteq> n0 \<Longrightarrow>
     find (\<lambda>e. d_name e = n) (filter (\<lambda>e. d_name e \<noteq> n0) es) = find (\<lambda>e. d_name e = n) es"
  by (induction es) auto

lemma remove_error_at_filter:
  assumes "remove_error_at es n0 = None"
  shows "remove_error_at (filter (\<lambda>e. d_name e \<noteq> n0) es) n = remove_error_at es n"
proof (cases "n = n0")
  case True
  have "find (\<lambda>e. d_name e = n0) (filter (\<lambda>e. d_name e \<noteq> n0) es) = None"
    by (simp add: find_None_iff)
  with True assms show ?thesis by (simp add: remove_error_at_def)
next
  case False
  then show ?thesis by (simp add: remove_error_at_def find_filter_other)
qed

lemma after_deletion_Nil: "after_deletion es [] = es"
  by (simp add: after_deletion_def)

lemma after_deletion_failed:
  "remove_error_at es n = Some m \<Longrightarrow> after_deletion es (n # ns) = after_deletion es ns"
  by (auto simp: after_deletion_def intro: filter_cong)

lemma after_deletion_removed:
  assumes "remove_error_at es n = None"
  shows "after_deletion (filter (\<lambda>e. d_name e \<noteq> n) es) ns = after_deletion es (n # ns)"
  unfolding after_deletion_def remove_error_at_filter[OF assms] filter_filter
  using assms by (intro filter_cong) auto

lemma deletion_report_filter:
  "remove_error_at es n = None \<Longrightarrow>
     deletion_report (filter (\<lambda>e. d_name e \<noteq> n) es) = deletion_report es"
  by (rule ext) (simp add: deletion_report_def remove_error_at_filter)

lemma foldl_delete:
  "\<not> d_dry_run c \<Longrightarrow> w_fs w = Listing es \<Longrightarrow>
     foldl (\<lambda>w x. delete_one c (snd x) w) w xs =
       w\<lparr>w_fs := Listing (after_deletion es (map (\<lambda>x. filename (snd x)) xs)),
         w_out := w_out w @ map (\<lambda>x. deletion_report es (snd x)) xs\<rparr>"
proof (induction xs arbitrary: w es)
  case Nil
  then show ?case by (simp add: after_deletion_Nil)
next
  case (Cons x xs)
  show ?case
  proof (cases "remove_error_at es (filename (snd x))")
    case None
    let ?es' = "filter (\<lambda>e. d_name e \<noteq> filename (snd x)) es"
    let ?w' = "put (Out (''  Deleted '' @ show_path (snd x))) (w\<lparr>w_fs := Listing ?es'\<rparr>)"
    from None Cons.prems have step: "delete_one c (snd x) w = ?w'"
      by (simp add: delete_one_def remove_all_Listing)
    have fs': "w_fs ?w' = Listing ?es'" by simp
    from Cons.IH[OF Cons.prems(1) fs']
    show ?thesis
      by (simp add: step after_deletion_removed[OF None] deletion_report_filter[OF None]
          deletion_report_def None put_def)
  next
    case (Some m)
    let ?w' = "put (Err (''  Error deleting '' @ show_path (snd x) @ '': '' @ m)) w"
    from Some Cons.prems have step: "delete_one c (snd x) w = ?w'"
      by (simp add: delete_one_def remove_all_Listing)
    from Cons.prems have fs': "w_fs ?w' = Listing es" by simp
    from Cons.IH[OF Cons.prems(1) fs']
    show ?thesis
      by (simp add: step after_deletion_failed[OF Some] deletion_report_def Some put_def)
  qed
qed

lemma keepRecentN_completes:
  assumes "\<forall>m. w_fs w \<noteq> Unreadable m" and "0 < d_keep_restart_count c"
  shows "fst (keepRecentN c w) = Inr ()"
proof -
  let ?d = "d_restart_base_path c"
  let ?vs = "restart_entries (w_fs w)"
  let ?k = "d_keep_restart_count c"
  let ?dirs = "dirs_with_iter (map (\<lambda>e. Path ?d (d_name e)) ?vs)"
  have g: "getAllRestartDirs ?d (w_fs w) = Inr (map (\<lambda>e. Path ?d (d_name e)) ?vs)"
    using assms(1) by (rule scan_ok)
  have len: "length ?dirs = length ?vs" by (rule length_dirs_with_iter_scan)
  have loop: "fst (delete_loop c ?dirs 0
                (to_int32 (to_size_t (int (length ?vs) - to_size_t ?k))) w') = Inr ()"
    if "\<not> to_int32 (int (length ?vs)) \<le> ?k" for w'
  proof -
    from that assms(2)
    have "to_int32 (int (length ?vs) - ?k) = to_int32 (int (length ?vs)) - ?k"
      by (intro to_int32_diff) simp_all
    moreover have "to_int32 (int (length ?vs)) \<le> int (length ?vs)"
      by (rule to_int32_le) simp
    ultimately have "to_int32 (to_size_t (int (length ?vs) - to_size_t ?k)) \<le> int (length ?dirs)"
      using assms(2) len by (simp add: to_int32_size_t)
    from delete_loop_foldl[OF _ this, of 0 c w'] show ?thesis by simp
  qed
  show ?thesis
    unfolding keepRecentN_def g
    by (simp add: Let_def len loop)
qed

text \<open>
  C7. In a real run a failing removal does not stop \<open>cleanup\<close>: with a positive
  keep-count \<open>cleanup\<close> returns normally whenever the scan succeeds. Each entry of the
  deletion set is attempted in turn; one whose removal fails stays and is reported on the
  error stream with its path and the cause, every other one is removed and reported as
  deleted, whatever happened to the entries before it.
\<close>

theorem cleanup_partial_failure:
  "0 < d_keep_restart_count c \<longrightarrow>
     ((\<forall>m. w_fs w \<noteq> Unreadable m) \<longrightarrow> fst (cleanup c w) = Inr ())
     \<and> (\<not> d_dry_run c \<and> w_fs w = Listing es \<and> well_formed (Listing es)
          \<and> d_keep_restart_count c < int (length (restart_entries (Listing es))) \<longrightarrow>
        (let dirs = dirs_with_iter
                      (map (\<lambda>e. Path (d_restart_base_path c) (d_name e))
                         (restart_entries (Listing es)));
             num_to_delete = length (restart_entries (Listing es)) - nat (d_keep_restart_count c)
         in cleanup c w =
              (Inr (),
               w\<lparr>w_fs :=
                    Listing (after_deletion es
                      (map (\<lambda>x. filename (snd x)) (take num_to_delete dirs))),
                  w_out :=
                    w_out w
                    @ [Out (''RestartCleaner: Starting cleanup of '' @ d_restart_base_path c),
                       Out (''Keeping '' @ show_int (d_keep_restart_count c)
                              @ '' most recent restart directories''),
                       Out (''Found '' @ show_nat (length (restart_entries (Listing es)))
                              @ '' restart directories''),
                       Out (''Deleting ''
                              @ show_int (int (length (restart_entries (Listing es)))
                                            - d_keep_restart_count c)
                              @ '' old restart directories (keeping ''
                              @ show_int (d_keep_restart_count c) @ '' most recent)'')]
                    @ map (\<lambda>x. deletion_report es (snd x)) (take num_to_delete dirs)\<rparr>)))"
proof (intro impI conjI)
  let ?hdr = "[Out (''RestartCleaner: Starting cleanup of '' @ d_restart_base_path c),
              Out (''Keeping '' @ show_int (d_keep_restart_count c)
                     @ '' most recent restart directories'')]"
  assume k: "0 < d_keep_restart_count c" and r: "\<forall>m. w_fs w \<noteq> Unreadable m"
  then have "\<forall>m. w_fs (puts ?hdr w) \<noteq> Unreadable m" by simp
  from keepRecentN_completes[OF this k] show "fst (cleanup c w) = Inr ()"
    by (simp only: cleanup_unfold)
next
  let ?hdr = "[Out (''RestartCleaner: Starting cleanup of '' @ d_restart_base_path c),
              Out (''Keeping '' @ show_int (d_keep_restart_count c)
                     @ '' most recent restart directories'')]"
  let ?found = "[Out (''Found '' @ show_nat (length (restart_entries (Listing es)))
                              @ '' restart directories''),
                 Out (''Deleting ''
                              @ show_int (int (length (restart_entries (Listing es)))
                                            - d_keep_restart_count c)
                              @ '' old restart directories (keeping ''
                              @ show_int (d_keep_restart_count c) @ '' most recent)'')]"
  assume k: "0 < d_keep_restart_count c"
  assume a: "\<not> d_dry_run c \<and> w_fs w = Listing es \<and> well_formed (Listing es)
          \<and> d_keep_restart_count c < int (length (restart_entries (Listing es)))"
  then have real: "\<not> d_dry_run c" and fs: "w_fs w = Listing es" by simp_all
  from a have 1: "\<forall>m. w_fs (puts ?hdr w) \<noteq> Unreadable m"
    and 3: "d_keep_restart_count c < int (length (restart_entries (w_fs (puts ?hdr w))))"
    by simp_all
  from a restart_entries_bound[of "Listing es"]
  have 4: "length (restart_entries (w_fs (puts ?hdr w))) < 2147483648" by simp
  have fs': "w_fs (puts ?found (puts ?hdr w)) = Listing es" using fs by simp
  have fsh: "w_fs (puts ?hdr w) = Listing es" using fs by simp
  show "let dirs = dirs_with_iter
                      (map (\<lambda>e. Path (d_restart_base_path c) (d_name e))
                         (restart_entries (Listing es)));
             num_to_delete = length (restart_entries (Listing es)) - nat (d_keep_restart_count c)
         in cleanup c w =
              (Inr (),
               w\<lparr>w_fs :=
                    Listing (after_deletion es
                      (map (\<lambda>x. filename (snd x)) (take num_to_delete dirs))),
                  w_out :=
                    w_out w
                    @ [Out (''RestartCleaner: Starting cleanup of '' @ d_restart_base_path c),
                       Out (''Keeping '' @ show_int (d_keep_restart_count c)
                              @ '' most recent restart directories''),
                       Out (''Found '' @ show_nat (length (restart_entries (Listing es)))
                              @ '' restart directories''),
                       Out (''Deleting ''
                              @ show_int (int (length (restart_entries (Listing es)))
                                            - d_keep_restart_count c)
                              @ '' old restart directories (keeping ''
                              @ show_int (d_keep_restart_count c) @ '' most recent)'')]
                    @ map (\<lambda>x. deletion_report es (snd x)) (take num_to_delete dirs)\<rparr>)"
    unfolding cleanup_unfold Let_def keepRecentN_delete[OF 1 k 3 4, unfolded fsh]
      foldl_delete[OF real fs']
    using fs by (simp add: puts_def)
qed

theorem cleanup_partial_failure_witness:
  "cleanup (test_cleaner 1 False) \<lparr>w_fs = locked_restart_dir, w_out = []\<rparr> =
     (Inr (),
      \<lparr>w_fs = Listing [directory ''restore.000300'', locked ''restore.000100'',
                        directory ''other_directory''],
        w_out =
          [Out ''RestartCleaner: Starting cleanup of test_restart_cleanup/restart_IB2d'',
           Out ''Keeping 1 most recent restart directories'',
           Out ''Found 4 restart directories'',
           Out ''Deleting 3 old restart directories (keeping 1 most recent)'',
           Out (''  Deleted '' @ quoted ''test_restart_cleanup/restart_IB2d/restore.000001''),
           Err (''  Error deleting ''
                  @ quoted ''test_restart_cleanup/restart_IB2d/restore.000100''
                  @ '': Permission denied''),
           Out (''  Deleted '' @ quoted ''test_restart_cleanup/restart_IB2d/restore.000200'')]\<rparr>)"
proof -
  let ?c = "test_cleaner 1 False"
  let ?es = "[directory ''restore.000300'', locked ''restore.000100'',
              directory ''restore.000200'', directory ''other_directory'',
              directory ''restore.000001'']"
  let ?w = "\<lparr>w_fs = Listing ?es, w_out = []\<rparr>"
  have k: "0 < d_keep_restart_count ?c" and real: "\<not> d_dry_run ?c"
    by (simp_all add: test_cleaner_def)
  have wf: "well_formed (Listing ?es)" by code_simp
  have n: "length (restart_entries (Listing ?es)) = 4" by code_simp
  have ds: "take 3 (dirs_with_iter
                      (map (\<lambda>e. Path ''test_restart_cleanup/restart_IB2d'' (d_name e))
                         (restart_entries (Listing ?es)))) =
      [(1, Path ''test_restart_cleanup/restart_IB2d'' ''restore.000001''),
       (100, Path ''test_restart_cleanup/restart_IB2d'' ''restore.000100''),
       (200, Path ''test_restart_cleanup/restart_IB2d'' ''restore.000200'')]"
    by code_simp
  have ad: "after_deletion ?es [''restore.000001'', ''restore.000100'', ''restore.000200''] =
      [directory ''restore.000300'', locked ''restore.000100'', directory ''other_directory'']"
    by code_simp
  have rp: "map (\<lambda>x. deletion_report ?es (snd x))
      [(1::int, Path ''test_restart_cleanup/restart_IB2d'' ''restore.000001''),
       (100, Path ''test_restart_cleanup/restart_IB2d'' ''restore.000100''),
       (200, Path ''test_restart_cleanup/restart_IB2d'' ''restore.000200'')] =
      [Out (''  Deleted '' @ quoted ''test_restart_cleanup/restart_IB2d/restore.000001''),
       Err (''  Error deleting ''
              @ quoted ''test_restart_cleanup/restart_IB2d/restore.000100''
              @ '': Permission denied''),
       Out (''  Deleted '' @ quoted ''test_restart_cleanup/restart_IB2d/restore.000200'')]"
    by code_simp
  have s: "show_int 1 = ''1''" "show_nat 4 = ''4''" "show_int 3 = ''3''" by code_simp+
  from cleanup_partial_failure[of ?c ?w ?es] k real wf n
  have "cleanup ?c ?w =
     (Inr (),
      \<lparr>w_fs = Listing [directory ''restore.000300'', locked ''restore.000100'',
                        directory ''other_directory''],
        w_out =
          [Out ''RestartCleaner: Starting cleanup of test_restart_cleanup/restart_IB2d'',
           Out ''Keeping 1 most recent restart directories'',
           Out ''Found 4 restart directories'',
           Out ''Deleting 3 old restart directories (keeping 1 most recent)'',
           Out (''  Deleted '' @ quoted ''test_restart_cleanup/restart_IB2d/restore.000001''),
           Err (''  Error deleting ''
                  @ quoted ''test_restart_cleanup/restart_IB2d/restore.000100''
                  @ '': Permission denied''),
           Out (''  Deleted '' @ quoted ''test_restart_cleanup/restart_IB2d/restore.000200'')]\<rparr>)"
    by (simp add: Let_def test_cleaner_def[of 1 False] ds[simplified] ad rp[simplified] s del: map_map)
  then show ?thesis by (simp only: locked_restart_dir_def)
qed

subsection \<open>The deletion set\<close>

lemma sorted_fst_sort_key:
  "sorted (map fst (sort_key (\<lambda>(iter, dir). (iter, filename dir)) (xs :: (int \<times> path) list)))"
proof -
  let ?K = "\<lambda>(iter :: int, dir). (iter, filename dir)"
  have "sorted (map ?K (sort_key ?K xs))" by (rule sorted_sort_key)
  then have "sorted_wrt (\<lambda>x y. ?K x \<le> ?K y) (sort_key ?K xs)" by (simp only: sorted_map)
  then have "sorted_wrt (\<lambda>x y. fst x \<le> fst y) (sort_key ?K xs)"
    by (rule sorted_wrt_mono_rel[rotated]) (auto simp: less_eq_prod_def)
  then show ?thesis by (simp only: sorted_map)
qed

lemma dirs_with_iter_fst:
  assumes "well_formed b"
  shows "map fst (dirs_with_iter (map (\<lambda>e. Path d (d_name e)) (restart_entries b)))
           = sort (map iteration (restart_entries b))"
    and "sorted_wrt (<) (sort (map iteration (restart_entries b)))"
proof -
  let ?vs = "restart_entries b"
  let ?ds = "dirs_with_iter (map (\<lambda>e. Path d (d_name e)) ?vs)"
  have set_eq: "set (map fst ?ds) = set (map iteration ?vs)"
    by (simp only: dirs_with_iter_scan set_map set_sort) (simp add: image_image)
  have len: "length (map fst ?ds) = length ?vs"
    by (simp only: length_map length_dirs_with_iter_scan)
  have di: "distinct (map iteration ?vs)" using assms by (rule distinct_iterations)
  then have "card (set (map fst ?ds)) = length (map fst ?ds)"
    using set_eq len distinct_card by fastforce
  then have d1: "distinct (map fst ?ds)" by (rule card_distinct)
  have s1: "sorted (map fst ?ds)" by (simp only: dirs_with_iter_def sorted_fst_sort_key)
  have d2: "distinct (sort (map iteration ?vs))" using di by simp
  have s2: "sorted (sort (map iteration ?vs))" by simp
  from s1 d1 s2 d2 set_eq show "map fst ?ds = sort (map iteration ?vs)"
    by (intro sorted_distinct_set_unique) simp_all
  from s2 d2 show "sorted_wrt (<) (sort (map iteration ?vs))"
    by (simp only: strict_sorted_iff)
qed

lemma dirs_with_iter_entries:
  assumes "x \<in> set (dirs_with_iter (map (\<lambda>e. Path d (d_name e)) (restart_entries b)))"
  shows "\<exists>e\<in>set (restart_entries b). x = (iteration e, Path d (d_name e))"
  using assms by (simp only: dirs_with_iter_scan set_sort) auto

lemma strict_sorted_take_drop:
  assumes "sorted_wrt (<) (map f xs)"
  shows "\<forall>x\<in>set (take n xs). \<forall>y\<in>set (drop n xs). f x < f y"
proof -
  from assms have "sorted_wrt (\<lambda>x y. f x < f y) (take n xs @ drop n xs)"
    by (simp add: sorted_wrt_map)
  then show ?thesis by (simp only: sorted_wrt_append) blast
qed

text \<open>
  C1. When the scan finds more valid entries than the keep-count, the sorted vector
  holds exactly the valid entries in strictly ascending order of their iteration numbers;
  the loop body is applied to its first \<open>total - keepCount\<close> entries and to no other, in
  that order; the \<open>keepCount\<close> entries that follow all have larger iteration numbers and
  are retained: in a real run they are still in the directory afterwards, while the
  entries of the deletion set have been removed unless their removal failed.
\<close>

theorem cleanup_deletion_set:
  "0 < d_keep_restart_count c \<and> w_fs w = Listing es \<and> well_formed (Listing es)
     \<and> d_keep_restart_count c < int (length (restart_entries (Listing es))) \<longrightarrow>
   (let dirs = dirs_with_iter
                 (map (\<lambda>e. Path (d_restart_base_path c) (d_name e))
                    (restart_entries (Listing es)));
        total = length (restart_entries (Listing es));
        num_to_delete = total - nat (d_keep_restart_count c)
    in map fst dirs = sort (map iteration (restart_entries (Listing es)))
       \<and> sorted_wrt (<) (map fst dirs)
       \<and> (\<forall>x\<in>set dirs. \<exists>e\<in>set (restart_entries (Listing es)).
             x = (iteration e, Path (d_restart_base_path c) (d_name e)))
       \<and> length (take num_to_delete dirs) = num_to_delete
       \<and> int (length (drop num_to_delete dirs)) = d_keep_restart_count c
       \<and> (\<forall>x\<in>set (take num_to_delete dirs). \<forall>y\<in>set (drop num_to_delete dirs). fst x < fst y)
       \<and> cleanup c w =
           (Inr (),
            foldl (\<lambda>w x. delete_one c (snd x) w)
              (puts [Out (''RestartCleaner: Starting cleanup of '' @ d_restart_base_path c),
                     Out (''Keeping '' @ show_int (d_keep_restart_count c)
                            @ '' most recent restart directories''),
                     Out (''Found '' @ show_nat total @ '' restart directories''),
                     Out (''Deleting '' @ show_int (int total - d_keep_restart_count c)
                            @ '' old restart directories (keeping ''
                            @ show_int (d_keep_restart_count c) @ '' most recent)'')] w)
              (take num_to_delete dirs))
       \<and> (\<not> d_dry_run c \<longrightarrow>
            w_fs (snd (cleanup c w)) =
              Listing (after_deletion es
                (map (\<lambda>x. filename (snd x)) (take num_to_delete dirs)))
            \<and> (\<forall>y\<in>set (drop num_to_delete dirs).
                  \<exists>e\<in>set (after_deletion es
                            (map (\<lambda>x. filename (snd x)) (take num_to_delete dirs))).
                    d_name e = filename (snd y))))"
proof (intro impI)
  let ?d = "d_restart_base_path c"
  let ?k = "d_keep_restart_count c"
  let ?vs = "restart_entries (Listing es)"
  let ?dirs = "dirs_with_iter (map (\<lambda>e. Path ?d (d_name e)) ?vs)"
  let ?n = "length ?vs - nat ?k"
  let ?hdr = "[Out (''RestartCleaner: Starting cleanup of '' @ ?d),
              Out (''Keeping '' @ show_int ?k @ '' most recent restart directories'')]"
  let ?found = "[Out (''Found '' @ show_nat (length ?vs) @ '' restart directories''),
                 Out (''Deleting '' @ show_int (int (length ?vs) - ?k)
                        @ '' old restart directories (keeping ''
                        @ show_int ?k @ '' most recent)'')]"
  let ?names = "map (\<lambda>x. filename (snd x)) (take ?n ?dirs)"
  assume a: "0 < ?k \<and> w_fs w = Listing es \<and> well_formed (Listing es)
     \<and> ?k < int (length ?vs)"
  then have k: "0 < ?k" and fs: "w_fs w = Listing es" and wf: "well_formed (Listing es)"
    and more: "?k < int (length ?vs)" by simp_all
  have len: "length ?dirs = length ?vs" by (rule length_dirs_with_iter_scan)
  have p1: "map fst ?dirs = sort (map iteration ?vs)" using wf by (rule dirs_with_iter_fst(1))
  have p2: "sorted_wrt (<) (map fst ?dirs)"
    using dirs_with_iter_fst(2)[OF wf] by (simp only: p1)
  have p3: "\<forall>x\<in>set ?dirs. \<exists>e\<in>set ?vs. x = (iteration e, Path ?d (d_name e))"
    using dirs_with_iter_entries by blast
  have p4: "length (take ?n ?dirs) = ?n" using len by simp
  have p5: "int (length (drop ?n ?dirs)) = ?k" using len k more by simp
  have p6: "\<forall>x\<in>set (take ?n ?dirs). \<forall>y\<in>set (drop ?n ?dirs). fst x < fst y"
    using p2 by (rule strict_sorted_take_drop)
  have fsh: "w_fs (puts ?hdr w) = Listing es" using fs by simp
  have fs': "w_fs (puts ?found (puts ?hdr w)) = Listing es" using fs by simp
  have 1: "\<forall>m. w_fs (puts ?hdr w) \<noteq> Unreadable m" using fs by simp
  have 3: "?k < int (length (restart_entries (w_fs (puts ?hdr w))))" using more fs by simp
  from wf restart_entries_bound[of "Listing es"]
  have 4: "length (restart_entries (w_fs (puts ?hdr w))) < 2147483648" using fs by simp
  have run: "cleanup c w =
      (Inr (), foldl (\<lambda>w x. delete_one c (snd x) w) (puts ?found (puts ?hdr w)) (take ?n ?dirs))"
    unfolding cleanup_unfold keepRecentN_delete[OF 1 k 3 4, unfolded fsh] by (rule refl)
  have hdrs: "puts ?found (puts ?hdr w) = puts (?hdr @ ?found) w" by (simp add: puts_def)
  have p7: "cleanup c w =
      (Inr (), foldl (\<lambda>w x. delete_one c (snd x) w) (puts (?hdr @ ?found) w) (take ?n ?dirs))"
    using run by (simp only: hdrs)
  have p8: "w_fs (snd (cleanup c w)) = Listing (after_deletion es ?names)" if "\<not> d_dry_run c"
    unfolding run foldl_delete[OF that fs'] by simp
  have p9: "\<forall>y\<in>set (drop ?n ?dirs). \<exists>e\<in>set (after_deletion es ?names).
              d_name e = filename (snd y)"
  proof
    fix y assume y: "y \<in> set (drop ?n ?dirs)"
    then have "y \<in> set ?dirs" by (rule in_set_dropD)
    with p3 obtain e where e: "e \<in> set ?vs" and ye: "y = (iteration e, Path ?d (d_name e))"
      by blast
    from e have ees: "e \<in> set es" by (simp add: restart_entries_def)
    have "d_name e \<notin> set ?names"
    proof
      assume "d_name e \<in> set ?names"
      then obtain x where x: "x \<in> set (take ?n ?dirs)" and xn: "filename (snd x) = d_name e"
        by auto
      from x have "x \<in> set ?dirs" by (rule in_set_takeD)
      with p3 obtain e' where "x = (iteration e', Path ?d (d_name e'))" by blast
      with xn have "fst x = iteration e" by (simp add: iteration_def)
      moreover from p6 x y have "fst x < fst y" by blast
      ultimately show False using ye by simp
    qed
    with ees have "e \<in> set (after_deletion es ?names)" by (simp add: after_deletion_def)
    with ye show "\<exists>e\<in>set (after_deletion es ?names). d_name e = filename (snd y)" by auto
  qed
  from p1 p2 p3 p4 p5 p6 p7 p8 p9
  show "let dirs = ?dirs; total = length ?vs; num_to_delete = total - nat ?k
    in map fst dirs = sort (map iteration ?vs)
       \<and> sorted_wrt (<) (map fst dirs)
       \<and> (\<forall>x\<in>set dirs. \<exists>e\<in>set ?vs. x = (iteration e, Path ?d (d_name e)))
       \<and> length (take num_to_delete dirs) = num_to_delete
       \<and> int (length (drop num_to_delete dirs)) = ?k
       \<and> (\<forall>x\<in>set (take num_to_delete dirs). \<forall>y\<in>set (drop num_to_delete dirs). fst x < fst y)
       \<and> cleanup c w =
           (Inr (),
            foldl (\<lambda>w x. delete_one c (snd x) w)
              (puts [Out (''RestartCleaner: Starting cleanup of '' @ ?d),
                     Out (''Keeping '' @ show_int ?k @ '' most recent restart directories''),
                     Out (''Found '' @ show_nat total @ '' restart directories''),
                     Out (''Deleting '' @ show_int (int total - ?k)
                            @ '' old restart directories (keeping ''
                            @ show_int ?k @ '' most recent)'')] w)
              (take num_to_delete dirs))
       \<and> (\<not> d_dry_run c \<longrightarrow>
            w_fs (snd (cleanup c w)) =
              Listing (after_deletion es
                (map (\<lambda>x. filename (snd x)) (take num_to_delete dirs)))
            \<and> (\<forall>y\<in>set (drop num_to_delete dirs).
                  \<exists>e\<in>set (after_deletion es
                            (map (\<lambda>x. filename (snd x)) (take num_to_delete dirs))).
                    d_name e = filename (snd y)))"
    unfolding Let_def append_Cons append_Nil by blast
qed

theorem cleanup_deletion_set_witness:
  "map fst (take 6 (dirs_with_iter
       (map (\<lambda>e. Path ''test_restart_cleanup/restart_IB2d'' (d_name e))
          (restart_entries test_restart_dir))))
     = [1, 100, 200, 300, 1000, 2500]
   \<and> map fst (drop 6 (dirs_with_iter
       (map (\<lambda>e. Path ''test_restart_cleanup/restart_IB2d'' (d_name e))
          (restart_entries test_restart_dir))))
     = [3000, 5000, 999999]
   \<and> w_fs (snd (cleanup (test_cleaner 3 False) \<lparr>w_fs = test_restart_dir, w_out = []\<rparr>))
     = Listing (map directory
         ([''restore.003000'', ''restore.999999'', ''restore.005000''] @ invalid_dirs))
   \<and> fst (cleanup (test_cleaner 3 False) \<lparr>w_fs = test_restart_dir, w_out = []\<rparr>) = Inr ()"
proof -
  let ?c = "test_cleaner 3 False"
  let ?es = "map directory (valid_dirs @ invalid_dirs)"
  let ?w = "\<lparr>w_fs = Listing ?es, w_out = []\<rparr>"
  have k: "0 < d_keep_restart_count ?c" and real: "\<not> d_dry_run ?c"
    and d: "d_restart_base_path ?c = ''test_restart_cleanup/restart_IB2d''"
    by (simp_all add: test_cleaner_def)
  have wf: "well_formed (Listing ?es)" using test_well_formed by (simp only: test_restart_dir_def)
  have n: "length (restart_entries (Listing ?es)) = 9"
    using test_restart_entries by (simp add: test_restart_dir_def valid_dirs_def)
  have ds: "dirs_with_iter (map (\<lambda>e. Path ''test_restart_cleanup/restart_IB2d'' (d_name e))
       (restart_entries (Listing ?es))) =
     [(1, Path ''test_restart_cleanup/restart_IB2d'' ''restore.000001''),
      (100, Path ''test_restart_cleanup/restart_IB2d'' ''restore.000100''),
      (200, Path ''test_restart_cleanup/restart_IB2d'' ''restore.000200''),
      (300, Path ''test_restart_cleanup/restart_IB2d'' ''restore.000300''),
      (1000, Path ''test_restart_cleanup/restart_IB2d'' ''restore.001000''),
      (2500, Path ''test_restart_cleanup/restart_IB2d'' ''restore.002500''),
      (3000, Path ''test_restart_cleanup/restart_IB2d'' ''restore.003000''),
      (5000, Path ''test_restart_cleanup/restart_IB2d'' ''restore.005000''),
      (999999, Path ''test_restart_cleanup/restart_IB2d'' ''restore.999999'')]"
    using test_dirs_with_iter by (simp only: test_restart_dir_def)
  have ad: "after_deletion ?es
      [''restore.000001'', ''restore.000100'', ''restore.000200'', ''restore.000300'',
       ''restore.001000'', ''restore.002500''] =
      map directory ([''restore.003000'', ''restore.999999'', ''restore.005000''] @ invalid_dirs)"
    by code_simp
  have kc: "d_keep_restart_count ?c = 3" by (simp add: test_cleaner_def)
  have hyp: "0 < d_keep_restart_count ?c \<and> w_fs ?w = Listing ?es \<and> well_formed (Listing ?es)
     \<and> d_keep_restart_count ?c < int (length (restart_entries (Listing ?es)))"
  proof (intro conjI)
    show "0 < d_keep_restart_count ?c" by (rule k)
    show "w_fs ?w = Listing ?es" by (simp del: map_append)
    show "well_formed (Listing ?es)" by (rule wf)
    show "d_keep_restart_count ?c < int (length (restart_entries (Listing ?es)))"
      unfolding n kc by simp
  qed
  note th = cleanup_deletion_set[of ?c ?w ?es, THEN mp, OF hyp, unfolded Let_def]
  note run = th[THEN conjunct2, THEN conjunct2, THEN conjunct2, THEN conjunct2,
      THEN conjunct2, THEN conjunct2, THEN conjunct1]
  note left = th[THEN conjunct2, THEN conjunct2, THEN conjunct2, THEN conjunct2,
      THEN conjunct2, THEN conjunct2, THEN conjunct2, THEN mp, OF real, THEN conjunct1]
  from left
  have "w_fs (snd (cleanup ?c ?w)) =
      Listing (map directory
        ([''restore.003000'', ''restore.999999'', ''restore.005000''] @ invalid_dirs))"
    by (simp add: kc n d ds ad del: map_map map_append)
  moreover from run have "fst (cleanup ?c ?w) = Inr ()" by simp
  ultimately have "w_fs (snd (cleanup ?c ?w)) =
      Listing (map directory
        ([''restore.003000'', ''restore.999999'', ''restore.005000''] @ invalid_dirs))"
    and "fst (cleanup ?c ?w) = Inr ()" by blast+
  then show ?thesis by (simp add: test_restart_dir_def ds del: map_map map_append)
qed

section \<open>The command line\<close>

lemma cleanup_result:
  assumes "0 < d_keep_restart_count c"
  shows "fst (cleanup c w) =
           (case w_fs w of
              Unreadable m \<Rightarrow>
                Inl (RuntimeError (''RestartCleaner: Error scanning directory: '' @ failure_what m))
            | _ \<Rightarrow> Inr ())"
proof (cases "\<exists>m. w_fs w = Unreadable m")
  case True
  then obtain m where m: "w_fs w = Unreadable m" by blast
  then have "fst (keepRecentN c (puts
       [Out (''RestartCleaner: Starting cleanup of '' @ d_restart_base_path c),
        Out (''Keeping '' @ show_int (d_keep_restart_count c)
               @ '' most recent restart directories'')] w)) =
      Inl (RuntimeError (''RestartCleaner: Error scanning directory: '' @ failure_what m))"
    by (simp add: keepRecentN_scan_error getAllRestartDirs_Unreadable)
  with m show ?thesis by (simp add: cleanup_unfold)
next
  case False
  then have "\<forall>m. w_fs (puts
       [Out (''RestartCleaner: Starting cleanup of '' @ d_restart_base_path c),
        Out (''Keeping '' @ show_int (d_keep_restart_count c)
               @ '' most recent restart directories'')] w) \<noteq> Unreadable m"
    by simp
  from keepRecentN_completes[OF this assms] False show ?thesis
    by (cases "w_fs w") (simp_all add: cleanup_unfold)
qed

lemma getAvailableIterations_Inr:
  "\<exists>its w'. getAvailableIterations c w = (Inr its, w')"
  by (simp add: getAvailableIterations_def split: sum.splits)

text \<open>
  The exit code of \<open>main\<close> is 0 or 1, and it is 0 exactly when there are three arguments,
  or four with \<^verbatim>\<open>--dry-run\<close> last, the option is \<^verbatim>\<open>--recent\<close>, \<^verbatim>\<open>std::stoi\<close> reads a
  positive number from the second argument, and the base directory exists and can be read.
\<close>

lemma main_exit_code:
  "fst (main program_name args w) = 0 \<or> fst (main program_name args w) = 1"
  "fst (main program_name args w) = 0 \<longleftrightarrow>
     (length args = 3 \<or> length args = 4 \<and> args ! 3 = ''--dry-run'')
     \<and> args ! 0 = ''--recent''
     \<and> (\<exists>keep_count. stoi (args ! 1) = Inr keep_count \<and> 0 < keep_count)
     \<and> (\<exists>es. w_fs w = Listing es)"
proof -
  have core: "fst (case RestartCleaner_new d k ''KEEP_RECENT_N'' dry (w_fs w) of
                 Inl e \<Rightarrow> (1, put (Err (''Error: '' @ what e)) w)
               | Inr cleaner \<Rightarrow>
                   (case cleanup cleaner w of
                      (Inl e, w1) \<Rightarrow> (1, put (Err (''Error: '' @ what e)) w1)
                    | (Inr u, w1) \<Rightarrow>
                        (case getAvailableIterations cleaner w1 of
                           (Inl e, w2) \<Rightarrow> (1, put (Err (''Error: '' @ what e)) w2)
                         | (Inr remaining, w2) \<Rightarrow>
                             (0, put (Out (CHR 0x0A # ''Final result: ''
                                             @ show_nat (length remaining)
                                             @ '' directories remaining.'')) w2))))
              = (if \<exists>es. w_fs w = Listing es then 0 else (1::int))"
    if k: "0 < k" for d k dry
  proof (cases "w_fs w")
    case Missing
    then show ?thesis using k
      by (simp add: RestartCleaner_new_def parseStrategy_def fs_exists_def)
  next
    case (Unreadable m)
    let ?c = "\<lparr>d_restart_base_path = d, d_strategy = KEEP_RECENT_N,
               d_keep_restart_count = k, d_dry_run = dry\<rparr>"
    have new: "RestartCleaner_new d k ''KEEP_RECENT_N'' dry (w_fs w) = Inr ?c
                 \<or> (\<exists>e. RestartCleaner_new d k ''KEEP_RECENT_N'' dry (w_fs w) = Inl e)"
      using k Unreadable
      by (cases m) (simp_all add: RestartCleaner_new_def parseStrategy_def fs_exists_def)
    from cleanup_result[of ?c w] k Unreadable
    have "fst (cleanup ?c w) =
            Inl (RuntimeError (''RestartCleaner: Error scanning directory: '' @ failure_what m))"
      by simp
    then obtain w1 where "cleanup ?c w =
        (Inl (RuntimeError (''RestartCleaner: Error scanning directory: '' @ failure_what m)), w1)"
      by (cases "cleanup ?c w") auto
    with new Unreadable show ?thesis by auto
  next
    case (Listing es)
    let ?c = "\<lparr>d_restart_base_path = d, d_strategy = KEEP_RECENT_N,
               d_keep_restart_count = k, d_dry_run = dry\<rparr>"
    have new: "RestartCleaner_new d k ''KEEP_RECENT_N'' dry (w_fs w) = Inr ?c"
      using k Listing by (simp add: RestartCleaner_new_def parseStrategy_def fs_exists_def)
    from cleanup_result[of ?c w] k Listing have "fst (cleanup ?c w) = Inr ()" by simp
    then obtain w1 where c: "cleanup ?c w = (Inr (), w1)"
      by (cases "cleanup ?c w") auto
    from getAvailableIterations_Inr[of ?c w1]
    obtain its w2 where "getAvailableIterations ?c w1 = (Inr its, w2)" by blast
    with new c Listing show ?thesis by simp
  qed
  show "fst (main program_name args w) = 0 \<or> fst (main program_name args w) = 1"
    unfolding main_def Let_def
    by (auto simp: core split: sum.splits stoi_error.splits)
  show "fst (main program_name args w) = 0 \<longleftrightarrow>
     (length args = 3 \<or> length args = 4 \<and> args ! 3 = ''--dry-run'')
     \<and> args ! 0 = ''--recent''
     \<and> (\<exists>keep_count. stoi (args ! 1) = Inr keep_count \<and> 0 < keep_count)
     \<and> (\<exists>es. w_fs w = Listing es)"
    unfolding main_def Let_def
    by (auto simp: core split: sum.splits stoi_error.splits)
qed

text \<open>
  C9. The number is read by \<^verbatim>\<open>std::stoi\<close>, which stops at the first character that is
  not a digit and ignores the rest: the argument \<^verbatim>\<open>3abc\<close> is not a number, yet it is
  taken to be 3. The program prints no error, removes the six oldest restart directories
  of the test tree and exits with code 0.
\<close>

theorem main_trailing_characters:
  "stoi ''3abc'' = Inr 3
   \<and> fst (main ''restart_cleaner''
            [''--recent'', ''3abc'', ''test_restart_cleanup/restart_IB2d'']
            \<lparr>w_fs = test_restart_dir, w_out = []\<rparr>) = 0
   \<and> w_fs (snd (main ''restart_cleaner''
                  [''--recent'', ''3abc'', ''test_restart_cleanup/restart_IB2d'']
                  \<lparr>w_fs = test_restart_dir, w_out = []\<rparr>))
       = Listing (map directory
           ([''restore.003000'', ''restore.999999'', ''restore.005000''] @ invalid_dirs))
   \<and> filter (\<lambda>l. case l of Err m \<Rightarrow> True | Out m \<Rightarrow> False)
         (w_out (snd (main ''restart_cleaner''
                  [''--recent'', ''3abc'', ''test_restart_cleanup/restart_IB2d'']
                  \<lparr>w_fs = test_restart_dir, w_out = []\<rparr>))) = []"
  by code_simp

end
